theory Spec2Isabelle
  imports Main "HOL-Library.AList" "HOL-Library.Char_ord" "HOL-Library.List_Lexorder"
    "HOL-Library.Monad_Syntax"
begin

section \<open>Sticky-state transitions of src/sticky.js\<close>

text \<open>
  The decorated \<open>$state.transitionTo\<close> of \<^verbatim>\<open>src/src/sticky.js\<close> mutates objects that it
  shares with UI-Router: internal state objects, their \<open>self\<close> declarations, \<open>path\<close> arrays,
  \<open>locals\<close> objects and parameter collections. The model keeps one typed store per kind of
  object; a reference is a number taken from one allocation counter, so that two objects
  are the same object exactly when their references are equal (JavaScript's \<open>===\<close>).

  Outside of this file and therefore inputs of the model: UI-Router itself (the undecorated
  \<open>$state.transitionTo\<close>, \<open>$state.get\<close>, \<open>$state.$current\<close>, the promise), and the
  \<open>$stickyState\<close> service (\<open>processTransition\<close>, \<open>getInactiveStates\<close>, \<open>stateInactivated\<close>,
  \<open>stateReactivated\<close>, \<open>stateEntering\<close>, \<open>stateExiting\<close>). Calls into the service are recorded
  with their arguments; what the service answers is part of the request.
\<close>

subsection \<open>Objects\<close>

type_synonym ref = nat
type_synonym tid = nat

text \<open>A JavaScript value held in a property: \<open>None\<close> is \<open>undefined\<close>, \<open>Some r\<close> an object.\<close>
type_synonym jsval = "nat option"

text \<open>An object used as a dictionary: its own properties in insertion order.\<close>
type_synonym props = "(string \<times> jsval) list"

text \<open>The prototype chain of an object: the objects a property read goes through after the
  object itself, nearest first. No code of this file changes the prototype of an object.\<close>
type_synonym chain = "nat list"

text \<open>
  The functions an \<open>onEnter\<close>/\<open>onExit\<close> slot can hold: nothing, a function of the state's
  declaration, or one of the closures the surrogate factories create, with the variables
  each closure captures.
\<close>
datatype hook =
    NoHook
  | UserFn nat
  | ReactivatedOnEnter ref ref
  | InactivatedOnExit ref
  | EnteringOnEnter ref "props option" hook bool
  | ExitingOnExit ref tid hook

text \<open>\<open>state.self\<close>: the public declaration of a state.\<close>
record selfobj =
  name :: "string option"
  onEnter :: hook
  onExit :: hook
  status :: "string option"

text \<open>An internal state object, or a surrogate (then \<open>surrogateType\<close> is set).\<close>
record node =
  self :: ref
  path :: "ref option"
  locals :: "ref option"
  resolve :: props
  views :: props
  params :: ref
  ownParams :: ref
  surrogateType :: "string option"

text \<open>The functions pushed onto \<open>restore.restoreFunctions\<close>, with their captured variables.\<close>
datatype undo =
    RestoreOnEnter ref hook
  | RestoreOnExit ref hook
  | DeleteReloadParam ref ref
  | PopReloadParam ref ref

text \<open>
  The variables of one invocation of the decorated \<open>transitionTo\<close>, which its closures
  (\<open>restore\<close>, the hooks, the promise handlers) keep alive. \<open>restored\<close> says that the
  variable \<open>restore\<close> has been reassigned to \<open>noop\<close>.
\<close>
record closure =
  DEBUG :: bool
  idx :: nat
  toState :: "ref option"
  fromState :: ref
  toParams :: props
  fromParams :: props
  reloadStateTree :: "ref option"
  savedToStatePath :: "ref option"
  savedFromStatePath :: "ref option"
  restoreFunctions :: "undo list"
  restored :: bool
  surrogateToPath :: "ref list"
  surrogateFromPath :: "ref list"
  reactivated :: "ref list"
  exited :: "ref list"
  terminalReactivatedState :: "ref option"

text \<open>A rejection reason that is not \<open>undefined\<close> or \<open>null\<close>: its \<open>message\<close> and \<open>stack\<close>
  properties, \<open>None\<close> for one that reads \<open>undefined\<close>.\<close>
record err =
  message :: "string option"
  stack :: "string option"

datatype logentry =
    RestoredPaths
  | DebugTransition tid
  | SurrogateFromPathMsg "string list"
  | SurrogateToPathMsg "string list"
  | CurrentStateMsg ref
  | ViewsMsg string
  | TransitionFailedMsg err
  | ConsoleLog "string option"

text \<open>
  The stores, the module-level variables of lines 59-67, and the debug log. An invocation
  of \<open>transitionTo\<close> is named by its number \<open>tid\<close>; the \<open>currentTransition\<close> object it pushes
  onto \<open>pendingTransitions\<close> and its \<open>restore\<close> function are named by the same number.
\<close>
record world =
  nodes :: "ref \<Rightarrow> node"
  selfs :: "ref \<Rightarrow> selfobj"
  arrays :: "ref \<Rightarrow> ref list"
  lobjs :: "ref \<Rightarrow> props"
  protos :: "ref \<Rightarrow> chain"
  pobjs :: "ref \<Rightarrow> string list"
  nextref :: ref
  root :: "ref option"
  inactivePseudoState :: ref
  hasParamSet :: bool
  pendingTransitions :: "tid list"
  pendingRestore :: "tid option"
  closures :: "tid \<Rightarrow> closure"
  invocations :: nat
  logged :: "logentry list"

subsection \<open>Small helpers for property access\<close>

definition upd_closure :: "tid \<Rightarrow> (closure \<Rightarrow> closure) \<Rightarrow> world \<Rightarrow> world" where
  "upd_closure t f w = w\<lparr>closures := (closures w)(t := f (closures w t))\<rparr>"

definition upd_node :: "ref \<Rightarrow> (node \<Rightarrow> node) \<Rightarrow> world \<Rightarrow> world" where
  "upd_node r f w = w\<lparr>nodes := (nodes w)(r := f (nodes w r))\<rparr>"

definition upd_self :: "ref \<Rightarrow> (selfobj \<Rightarrow> selfobj) \<Rightarrow> world \<Rightarrow> world" where
  "upd_self r f w = w\<lparr>selfs := (selfs w)(r := f (selfs w r))\<rparr>"

text \<open>\<open>state.self\<close> read through the internal state object.\<close>
definition self_of :: "world \<Rightarrow> ref \<Rightarrow> ref" where
  "self_of w state = self (nodes w state)"

text \<open>\<open>arr[i]\<close>: \<open>undefined\<close> out of range.\<close>
definition nth_opt :: "'a list \<Rightarrow> nat \<Rightarrow> 'a option" where
  "nth_opt xs i = (if i < length xs then Some (xs ! i) else None)"

text \<open>A name as it prints in a string concatenation.\<close>
definition name_text :: "string option \<Rightarrow> string" where
  "name_text n = (case n of None \<Rightarrow> ''undefined'' | Some s \<Rightarrow> s)"

text \<open>\<open>name.indexOf("@") != -1\<close>\<close>
definition has_at :: "string \<Rightarrow> bool" where
  "has_at nm = (CHR ''@'' \<in> set nm)"

text \<open>\<open>s.indexOf(prefix) === 0\<close>\<close>
definition starts_with :: "string \<Rightarrow> string \<Rightarrow> bool" where
  "starts_with s pre = (take (length pre) s = pre)"

text \<open>\<open>angular.forEach\<close> over a list, stopping at the first exception (\<open>None\<close>).\<close>
fun forEach :: "('a \<Rightarrow> world \<Rightarrow> world option) \<Rightarrow> 'a list \<Rightarrow> world \<Rightarrow> world option" where
  "forEach f [] w = Some w"
| "forEach f (x # xs) w = (case f x w of None \<Rightarrow> None | Some w' \<Rightarrow> forEach f xs w')"

subsection \<open>SurrogateState (lines 69-82)\<close>

text \<open>A property read \<open>obj[k]\<close>: the value of the first object, among \<open>obj\<close> and then its
  prototype chain, that has \<open>k\<close> as an own property; \<open>undefined\<close> when none has.\<close>
fun get_prop :: "world \<Rightarrow> ref list \<Rightarrow> string \<Rightarrow> jsval" where
  "get_prop w [] k = None"
| "get_prop w (obj # rest) k = (case map_of (lobjs w obj) k of Some v \<Rightarrow> v | None \<Rightarrow> get_prop w rest k)"

text \<open>\<open>root && root.locals && root.locals.globals\<close>: \<open>root.locals\<close> was made by \<open>inherit\<close> (line
  117), so the read of \<open>globals\<close> goes on to its prototypes when it has no such own property
  (line 118 deletes the one of \<open>inactivePseudoState.locals\<close>).\<close>
definition root_globals :: "world \<Rightarrow> jsval" where
  "root_globals w =
     (case root w of
        None \<Rightarrow> None
      | Some rt \<Rightarrow> (case locals (nodes w rt) of
           None \<Rightarrow> None
         | Some l \<Rightarrow> get_prop w (l # protos w l) ''globals''))"

text \<open>
  A blank surrogate: fresh \<open>resolve\<close>, \<open>locals\<close>, \<open>views\<close>, \<open>self\<close>, \<open>params\<close> and
  \<open>ownParams\<close> objects; the \<open>locals\<close> object is a literal, with no prototype of interest.
\<close>
definition SurrogateState :: "string \<Rightarrow> world \<Rightarrow> ref \<times> world" where
  "SurrogateState ty w =
    (let r = nextref w
     in (r, w\<lparr>nodes := (nodes w)(r := \<lparr>self = r + 1, path = None, locals = Some (r + 2),
                  resolve = [], views = [], params = r + 3, ownParams = r + 4,
                  surrogateType = Some ty\<rparr>),
              selfs := (selfs w)(r + 1 := \<lparr>name = None, onEnter = NoHook, onExit = NoHook, status = None\<rparr>),
              lobjs := (lobjs w)(r + 2 := [(''globals'', root_globals w)]),
              protos := (protos w)(r + 2 := []),
              pobjs := (pobjs w)(r + 3 := [], r + 4 := (if hasParamSet w then [''$$equals''] else [])),
              nextref := r + 5\<rparr>))"

subsection \<open>restore (lines 147-182)\<close>

definition addRestoreFunction :: "tid \<Rightarrow> undo \<Rightarrow> world \<Rightarrow> world" where
  "addRestoreFunction t fn w = upd_closure t (\<lambda>c. c\<lparr>restoreFunctions := restoreFunctions c @ [fn]\<rparr>) w"

text \<open>Running one registered restore function.\<close>
fun restoreFunction :: "undo \<Rightarrow> world \<Rightarrow> world" where
  "restoreFunction (RestoreOnEnter state oldOnEnter) w =
     upd_self (self_of w state) (\<lambda>s. s\<lparr>onEnter := oldOnEnter\<rparr>) w"
| "restoreFunction (RestoreOnExit state oldOnExit) w =
     upd_self (self_of w state) (\<lambda>s. s\<lparr>onExit := oldOnExit\<rparr>) w"
| "restoreFunction (DeleteReloadParam ps ops) w =
     (let w1 = w\<lparr>pobjs := (pobjs w)(ps := removeAll ''$$uirouterextrasreload'' (pobjs w ps))\<rparr>
      in w1\<lparr>pobjs := (pobjs w1)(ops := removeAll ''$$uirouterextrasreload'' (pobjs w1 ops))\<rparr>)"
| "restoreFunction (PopReloadParam ps ops) w =
     (let w1 = w\<lparr>pobjs := (pobjs w)(ps := butlast (pobjs w ps))\<rparr>
      in w1\<lparr>pobjs := (pobjs w1)(ops := butlast (pobjs w1 ops))\<rparr>)"

text \<open>\<open>pendingTransitions.splice(idx, 1)\<close>\<close>
definition splice1 :: "nat \<Rightarrow> 'a list \<Rightarrow> 'a list" where
  "splice1 i xs = take i xs @ drop (Suc i) xs"

text \<open>
  The body of the function first assigned to the variable \<open>restore\<close> (lines 151-173). Inside
  it \<open>restore.restoreFunctions\<close> reads the variable as it is then: once the variable holds
  \<open>noop\<close>, the property is \<open>undefined\<close> and \<open>angular.forEach\<close> does nothing.
\<close>
definition restore_body :: "tid \<Rightarrow> world \<Rightarrow> world" where
  "restore_body t w =
    (let w1 = (case savedToStatePath (closures w t) of
                 None \<Rightarrow> w
               | Some p \<Rightarrow>
                   upd_closure t (\<lambda>c. c\<lparr>savedToStatePath := None\<rparr>)
                     (case toState (closures w t) of
                        None \<Rightarrow> w
                      | Some ts \<Rightarrow> upd_node ts (\<lambda>n. n\<lparr>path := Some p\<rparr>) w));
         w2 = (case savedFromStatePath (closures w1 t) of
                 None \<Rightarrow> w1
               | Some p \<Rightarrow>
                   upd_closure t (\<lambda>c. c\<lparr>savedFromStatePath := None\<rparr>)
                     (upd_node (fromState (closures w1 t)) (\<lambda>n. n\<lparr>path := Some p\<rparr>) w1));
         w3 = (if restored (closures w2 t) then w2
               else fold restoreFunction (restoreFunctions (closures w2 t)) w2);
         w4 = upd_closure t (\<lambda>c. c\<lparr>restored := True\<rparr>) w3
     in w4\<lparr>pendingRestore := None,
           pendingTransitions := splice1 (idx (closures w4 t)) (pendingTransitions w4)\<rparr>)"

text \<open>The call \<open>restore()\<close> of the promise handlers: it calls what the variable holds.\<close>
definition restore :: "tid \<Rightarrow> world \<Rightarrow> world" where
  "restore t w = (if restored (closures w t) then w else restore_body t w)"

text \<open>\<open>if (pendingRestore) pendingRestore()\<close>: the slot holds a function object, not the variable.\<close>
definition run_pendingRestore :: "world \<Rightarrow> world" where
  "run_pendingRestore w = (case pendingRestore w of None \<Rightarrow> w | Some t \<Rightarrow> restore_body t w)"

subsection \<open>Surrogate state functions (lines 191-263)\<close>

definition stateReactivatedSurrogatePhase1 :: "ref \<Rightarrow> world \<Rightarrow> ref \<times> world" where
  "stateReactivatedSurrogatePhase1 state w =
    (let (surrogate, w1) = SurrogateState ''reactivate_phase1'' w;
         w2 = upd_node surrogate (\<lambda>n. n\<lparr>locals := locals (nodes w1 state)\<rparr>) w1;
         copy = nextref w2;
         w3 = w2\<lparr>selfs := (selfs w2)(copy := selfs w2 (self_of w2 state)), nextref := copy + 1\<rparr>
     in (surrogate, upd_node surrogate (\<lambda>n. n\<lparr>self := copy\<rparr>) w3))"

text \<open>
  \<open>angular.extend(new SurrogateState(...), state)\<close> copies every own property of the state
  over the blank surrogate, \<open>self\<close> included: the surrogate and the state then share one
  \<open>self\<close> object, and \<open>surrogate.self.onEnter = ...\<close> writes the state's own slot.
\<close>
definition stateReactivatedSurrogatePhase2 :: "tid \<Rightarrow> ref \<Rightarrow> world \<Rightarrow> ref \<times> world" where
  "stateReactivatedSurrogatePhase2 t state w =
    (let (surrogate, w1) = SurrogateState ''reactivate_phase2'' w;
         st = nodes w1 state;
         w2 = upd_node surrogate (\<lambda>n. st\<lparr>surrogateType :=
                 (case surrogateType st of None \<Rightarrow> surrogateType n | Some ty \<Rightarrow> Some ty)\<rparr>) w1;
         oldOnEnter = onEnter (selfs w2 (self_of w2 surrogate));
         w3 = upd_node surrogate (\<lambda>n. n\<lparr>resolve := [], views := []\<rparr>) w2;
         w4 = upd_self (self_of w3 surrogate) (\<lambda>s. s\<lparr>onEnter := ReactivatedOnEnter surrogate state\<rparr>) w3
     in (surrogate, addRestoreFunction t (RestoreOnEnter state oldOnEnter) w4))"

definition stateInactivatedSurrogate :: "tid \<Rightarrow> ref \<Rightarrow> world \<Rightarrow> ref \<times> world" where
  "stateInactivatedSurrogate t state w =
    (let (surrogate, w1) = SurrogateState ''inactivate'' w;
         w2 = upd_node surrogate (\<lambda>n. n\<lparr>self := self_of w1 state\<rparr>) w1;
         oldOnExit = onExit (selfs w2 (self_of w2 state));
         w3 = upd_self (self_of w2 surrogate) (\<lambda>s. s\<lparr>onExit := InactivatedOnExit state\<rparr>) w2
     in (surrogate, addRestoreFunction t (RestoreOnExit state oldOnExit) w3))"

definition stateEnteredSurrogate :: "tid \<Rightarrow> ref \<Rightarrow> props option \<Rightarrow> world \<Rightarrow> ref \<times> world" where
  "stateEnteredSurrogate t state toParams' w =
    (let oldOnEnter = onEnter (selfs w (self_of w state));
         w1 = upd_self (self_of w state) (\<lambda>s. s\<lparr>onEnter := EnteringOnEnter state toParams' oldOnEnter False\<rparr>) w
     in (state, addRestoreFunction t (RestoreOnEnter state oldOnEnter) w1))"

definition stateUpdateParamsSurrogate :: "tid \<Rightarrow> ref \<Rightarrow> props option \<Rightarrow> world \<Rightarrow> ref \<times> world" where
  "stateUpdateParamsSurrogate t state toParams' w =
    (let oldOnEnter = onEnter (selfs w (self_of w state));
         w1 = upd_self (self_of w state) (\<lambda>s. s\<lparr>onEnter := EnteringOnEnter state toParams' oldOnEnter True\<rparr>) w
     in (state, addRestoreFunction t (RestoreOnEnter state oldOnEnter) w1))"

definition stateExitedSurrogate :: "tid \<Rightarrow> ref \<Rightarrow> world \<Rightarrow> ref \<times> world" where
  "stateExitedSurrogate t state w =
    (let oldOnExit = onExit (selfs w (self_of w state));
         w1 = upd_self (self_of w state) (\<lambda>s. s\<lparr>onExit := ExitingOnExit state t oldOnExit\<rparr>) w
     in (state, addRestoreFunction t (RestoreOnExit state oldOnExit) w1))"

subsection \<open>What a request brings from outside this file\<close>

text \<open>\<open>options.reload\<close>: absent or false, \<open>true\<close>, or a state; for a state, the internal
  state object that \<open>$state.get(reload, rel).$$state()\<close> yields (\<open>None\<close> when \<open>$state.get\<close>
  finds nothing).\<close>
datatype reload_opt = NoReload | ReloadAll | ReloadFrom "ref option"

text \<open>The object \<open>_StickyState.processTransition\<close> returns. The arrays \<open>enter\<close> and \<open>exit\<close>
  are indexed by path position; \<open>None\<close> is a hole or any value that is not a string.\<close>
record plan =
  keep :: nat
  enter :: "string option list"
  exit :: "string option list"
  inactives :: "ref list"

text \<open>
  \<open>target\<close> is \<open>internalStates[$state.get(to, rel).name]\<close>, \<open>None\<close> when the lookup or the table
  has nothing; \<open>current\<close> and \<open>currentParams\<close> are \<open>$state.$current\<close> and \<open>$state.params\<close>.
\<close>
record request =
  target :: "ref option"
  toParamsArg :: "props option"
  reload :: reload_opt
  current :: ref
  currentParams :: "props option"
  debugMode :: bool
  randomNumber :: nat
  stickyTransitions :: plan
  inactiveStates :: "ref list"

text \<open>
  Modelled from the spec: the string that \<open>Array.prototype.sort\<close> compares for an internal
  state object. The objects are UI-Router's, whose \<open>toString\<close> is not in this repository; the
  spec says the orphans are sorted by name.
\<close>
definition state_toString :: "world \<Rightarrow> ref \<Rightarrow> string" where
  "state_toString w state = name_text (name (selfs w (self_of w state)))"

subsection \<open>The decorated transitionTo (lines 124-432)\<close>

text \<open>Lines 129-130.\<close>
definition link_inactive_locals :: "world \<Rightarrow> world option" where
  "link_inactive_locals w =
    (case locals (nodes w (inactivePseudoState w)) of
       Some l \<Rightarrow> Some w
     | None \<Rightarrow> (case root w of
                  None \<Rightarrow> None
                | Some rt \<Rightarrow> Some (upd_node (inactivePseudoState w) (\<lambda>n. n\<lparr>locals := locals (nodes w rt)\<rparr>) w)))"

text \<open>Lines 131-148 and 179-182: the pending restore, then the variables of this invocation.\<close>
definition begin_transition :: "request \<Rightarrow> world \<Rightarrow> tid \<times> world" where
  "begin_transition rq w =
    (let t = invocations w;
         i = length (pendingTransitions w);
         w1 = run_pendingRestore w;
         w2 = (if pendingRestore w \<noteq> None \<and> debugMode rq
               then w1\<lparr>logged := logged w1 @ [RestoredPaths]\<rparr> else w1);
         c = \<lparr>DEBUG = debugMode rq, idx = i, toState = target rq, fromState = current rq,
              toParams = (case toParamsArg rq of None \<Rightarrow> [] | Some p \<Rightarrow> p),
              fromParams = (case currentParams rq of None \<Rightarrow> [] | Some p \<Rightarrow> p),
              reloadStateTree = None,
              savedToStatePath = None, savedFromStatePath = None,
              restoreFunctions = [], restored = False,
              surrogateToPath = [], surrogateFromPath = [], reactivated = [], exited = [],
              terminalReactivatedState = None\<rparr>
     in (t, w2\<lparr>closures := (closures w2)(t := c), invocations := Suc t\<rparr>))"

text \<open>Lines 271-276. For \<open>reload === true\<close> the state of \<open>savedToStatePath[0].self\<close> is the
  first path element itself.\<close>
definition save_paths :: "request \<Rightarrow> tid \<Rightarrow> ref \<Rightarrow> world \<Rightarrow> world option" where
  "save_paths rq t ts w =
    (let w1 = upd_closure t (\<lambda>c. c\<lparr>savedToStatePath := path (nodes w ts),
                                    savedFromStatePath := path (nodes w (fromState c))\<rparr>) w
     in case reload rq of
          NoReload \<Rightarrow> Some w1
        | ReloadFrom r \<Rightarrow> Some (upd_closure t (\<lambda>c. c\<lparr>reloadStateTree := r\<rparr>) w1)
        | ReloadAll \<Rightarrow>
            (case savedToStatePath (closures w1 t) of
               None \<Rightarrow> None
             | Some p \<Rightarrow> (case nth_opt (arrays w1 p) 0 of
                  None \<Rightarrow> None
                | Some first \<Rightarrow> Some (upd_closure t (\<lambda>c. c\<lparr>reloadStateTree := Some first\<rparr>) w1))))"

text \<open>Lines 282-292.\<close>
definition register_pending :: "tid \<Rightarrow> world \<Rightarrow> world" where
  "register_pending t w = w\<lparr>pendingTransitions := pendingTransitions w @ [t], pendingRestore := Some t\<rparr>"

text \<open>Assigning a property of a parameter set: a new key goes last.\<close>
definition set_key :: "string \<Rightarrow> string list \<Rightarrow> string list" where
  "set_key k ks = (if k \<in> set ks then ks else ks @ [k])"

text \<open>Lines 297-317.\<close>
definition reload_params :: "request \<Rightarrow> tid \<Rightarrow> world \<Rightarrow> world" where
  "reload_params rq t w =
    (case reloadStateTree (closures w t) of
       None \<Rightarrow> w
     | Some rs \<Rightarrow>
        (let w1 = upd_closure t (\<lambda>c. c\<lparr>toParams :=
                    AList.update ''$$uirouterextrasreload'' (Some (randomNumber rq)) (toParams c)\<rparr>) w;
             ps = params (nodes w1 rs);
             ops = ownParams (nodes w1 rs)
         in if hasParamSet w1 then
              (let w2 = w1\<lparr>pobjs := (pobjs w1)(ops := set_key ''$$uirouterextrasreload'' (pobjs w1 ops))\<rparr>;
                   w3 = w2\<lparr>pobjs := (pobjs w2)(ps := set_key ''$$uirouterextrasreload'' (pobjs w2 ps))\<rparr>
               in addRestoreFunction t (DeleteReloadParam ps ops) w3)
            else
              (let w2 = w1\<lparr>pobjs := (pobjs w1)(ps := pobjs w1 ps @ [''$$uirouterextrasreload''])\<rparr>;
                   w3 = w2\<lparr>pobjs := (pobjs w2)(ops := pobjs w2 ops @ [''$$uirouterextrasreload''])\<rparr>
               in addRestoreFunction t (PopReloadParam ps ops) w3)))"

text \<open>Line 327.\<close>
definition debug_transition :: "tid \<Rightarrow> world \<Rightarrow> world" where
  "debug_transition t w = (if DEBUG (closures w t) then w\<lparr>logged := logged w @ [DebugTransition t]\<rparr> else w)"

text \<open>Lines 330-331: \<open>path.slice(0, keep)\<close> of both states.\<close>
definition slice_paths :: "request \<Rightarrow> tid \<Rightarrow> ref \<Rightarrow> world \<Rightarrow> world option" where
  "slice_paths rq t ts w =
    (case path (nodes w ts) of
       None \<Rightarrow> None
     | Some tp \<Rightarrow>
        (case path (nodes w (fromState (closures w t))) of
           None \<Rightarrow> None
         | Some fp \<Rightarrow> Some (upd_closure t (\<lambda>c. c\<lparr>
              surrogateToPath := take (keep (stickyTransitions rq)) (arrays w tp),
              surrogateFromPath := take (keep (stickyTransitions rq)) (arrays w fp)\<rparr>) w)))"

text \<open>Lines 334-336, on the own properties of one object.\<close>
definition clear_views :: "props \<Rightarrow> props" where
  "clear_views l = fold (\<lambda>(nm, local) acc. if has_at nm then AList.delete nm acc else acc) l l"

definition clear_inactive_locals :: "world \<Rightarrow> world" where
  "clear_inactive_locals w =
    (case locals (nodes w (inactivePseudoState w)) of
       None \<Rightarrow> w
     | Some l \<Rightarrow> w\<lparr>lobjs := (lobjs w)(l := clear_views (lobjs w l))\<rparr>)"

text \<open>Lines 343-347: every key iterated is an own property.\<close>
definition copy_views :: "props \<Rightarrow> props \<Rightarrow> props" where
  "copy_views iLocals l =
     fold (\<lambda>(nm, view) acc. if has_at nm then AList.update nm view acc else acc) iLocals l"

text \<open>Lines 341-348 for one element of \<open>stickyTransitions.inactives\<close>; assigning a property
  of a missing \<open>inactivePseudoState.locals\<close> throws.\<close>
definition load_inactive_locals :: "ref \<Rightarrow> world \<Rightarrow> world option" where
  "load_inactive_locals i w =
    (case locals (nodes w i) of
       None \<Rightarrow> Some w
     | Some il \<Rightarrow>
        (case locals (nodes w (inactivePseudoState w)) of
           None \<Rightarrow> (if list_ex (\<lambda>(nm, view). has_at nm) (lobjs w il) then None else Some w)
         | Some l \<Rightarrow> Some (w\<lparr>lobjs := (lobjs w)(l := copy_views (lobjs w il) (lobjs w l))\<rparr>)))"

text \<open>Lines 356-366: the branch for \<open>"reactivate"\<close>.\<close>
definition reactivate_branch :: "tid \<Rightarrow> ref \<Rightarrow> world \<Rightarrow> world" where
  "reactivate_branch t st w =
    (let (surrogate, w1) = stateReactivatedSurrogatePhase1 st w;
         w2 = upd_closure t (\<lambda>c. c\<lparr>surrogateToPath := surrogateToPath c @ [surrogate]\<rparr>) w1;
         w3 = upd_closure t (\<lambda>c. c\<lparr>surrogateFromPath := surrogateFromPath c @ [surrogate]\<rparr>) w2;
         (phase2, w4) = stateReactivatedSurrogatePhase2 t st w3
     in upd_closure t (\<lambda>c. c\<lparr>reactivated := reactivated c @ [phase2],
                              terminalReactivatedState := Some st\<rparr>) w4)"

text \<open>Lines 368-371: the branch for \<open>"updateStateParams"\<close>; the factory is called with one
  argument, so its \<open>toParams\<close> is \<open>undefined\<close>.\<close>
definition updateStateParams_branch :: "tid \<Rightarrow> ref \<Rightarrow> world \<Rightarrow> world" where
  "updateStateParams_branch t st w =
    (let (surrogate, w1) = stateUpdateParamsSurrogate t st None w
     in upd_closure t (\<lambda>c. c\<lparr>surrogateToPath := surrogateToPath c @ [surrogate],
                              terminalReactivatedState := Some st\<rparr>) w1)"

text \<open>Lines 373-374: the branch for \<open>"enter"\<close>, again with one argument.\<close>
definition enter_branch :: "tid \<Rightarrow> ref \<Rightarrow> world \<Rightarrow> world" where
  "enter_branch t st w =
    (let (surrogate, w1) = stateEnteredSurrogate t st None w
     in upd_closure t (\<lambda>c. c\<lparr>surrogateToPath := surrogateToPath c @ [surrogate]\<rparr>) w1)"

text \<open>Lines 352-376, one call of the iterator; a path element that is \<open>undefined\<close> makes
  each factory throw.\<close>
definition enter_step :: "tid \<Rightarrow> nat \<times> string option \<Rightarrow> world \<Rightarrow> world option" where
  "enter_step t iv w =
    (case toState (closures w t) of
       None \<Rightarrow> None
     | Some ts \<Rightarrow>
        (case path (nodes w ts) of
           None \<Rightarrow> None
         | Some p \<Rightarrow>
            (let enteringState = nth_opt (arrays w p) (fst iv) in
             if snd iv = Some ''reactivate'' then
               map_option (\<lambda>st. reactivate_branch t st w) enteringState
             else if snd iv = Some ''updateStateParams'' then
               map_option (\<lambda>st. updateStateParams_branch t st w) enteringState
             else if snd iv = Some ''enter'' then
               map_option (\<lambda>st. enter_branch t st w) enteringState
             else Some w)))"

text \<open>Lines 382-384: the branch for \<open>"inactivate"\<close>.\<close>
definition inactivate_branch :: "tid \<Rightarrow> ref \<Rightarrow> world \<Rightarrow> world" where
  "inactivate_branch t st w =
    (let (surrogate, w1) = stateInactivatedSurrogate t st w;
         w2 = upd_closure t (\<lambda>c. c\<lparr>surrogateFromPath := surrogateFromPath c @ [surrogate]\<rparr>) w1
     in upd_closure t (\<lambda>c. c\<lparr>exited := exited c @ [st]\<rparr>) w2)"

text \<open>Lines 385-387: the branch for \<open>"exit"\<close>.\<close>
definition exit_branch :: "tid \<Rightarrow> ref \<Rightarrow> world \<Rightarrow> world" where
  "exit_branch t st w =
    (let (surrogate, w1) = stateExitedSurrogate t st w;
         w2 = upd_closure t (\<lambda>c. c\<lparr>surrogateFromPath := surrogateFromPath c @ [surrogate]\<rparr>) w1
     in upd_closure t (\<lambda>c. c\<lparr>exited := exited c @ [st]\<rparr>) w2)"

text \<open>Lines 380-389, one call of the iterator.\<close>
definition exit_step :: "tid \<Rightarrow> nat \<times> string option \<Rightarrow> world \<Rightarrow> world option" where
  "exit_step t iv w =
    (case path (nodes w (fromState (closures w t))) of
       None \<Rightarrow> None
     | Some p \<Rightarrow>
        (let exiting = nth_opt (arrays w p) (fst iv) in
         if snd iv = Some ''inactivate'' then
           map_option (\<lambda>st. inactivate_branch t st w) exiting
         else if snd iv = Some ''exit'' then
           map_option (\<lambda>st. exit_branch t st w) exiting
         else Some w))"

text \<open>Lines 393-397.\<close>
definition push_reactivated :: "tid \<Rightarrow> world \<Rightarrow> world" where
  "push_reactivated t w = upd_closure t (\<lambda>c. c\<lparr>surrogateToPath := surrogateToPath c @ reactivated c\<rparr>) w"

text \<open>Lines 405-409: the inactive states whose name starts with the prefix.\<close>
fun collect_orphans :: "world \<Rightarrow> string \<Rightarrow> ref list \<Rightarrow> ref list option" where
  "collect_orphans w pre [] = Some []"
| "collect_orphans w pre (exiting # rest) =
     (case name (selfs w (self_of w exiting)) of
        None \<Rightarrow> None
      | Some nm \<Rightarrow>
         (case collect_orphans w pre rest of
            None \<Rightarrow> None
          | Some os \<Rightarrow> Some (if starts_with nm pre then exiting # os else os)))"

text \<open>Lines 413-415: \<open>map(inactiveOrphans, stateExitedSurrogate)\<close>.\<close>
fun map_exited :: "tid \<Rightarrow> ref list \<Rightarrow> world \<Rightarrow> ref list \<times> world" where
  "map_exited t [] w = ([], w)"
| "map_exited t (exiting # rest) w =
     (let (s, w1) = stateExitedSurrogate t exiting w;
          (ss, w2) = map_exited t rest w1
      in (s # ss, w2))"

text \<open>Lines 401-417.\<close>
definition exit_orphans :: "request \<Rightarrow> tid \<Rightarrow> ref \<Rightarrow> world \<Rightarrow> world option" where
  "exit_orphans rq t ts w =
    (if terminalReactivatedState (closures w t) = Some ts then
       (let pre = name_text (name (selfs w (self_of w ts))) @ ''.'' in
        case collect_orphans w pre (inactiveStates rq) of
          None \<Rightarrow> None
        | Some found \<Rightarrow>
           (let inactiveOrphans = rev (sort_key (state_toString w) found);
                (surrogates, w1) = map_exited t inactiveOrphans w
            in Some (upd_closure t (\<lambda>c. c\<lparr>surrogateFromPath := surrogateFromPath c @ surrogates,
                                           exited := exited c @ inactiveOrphans\<rparr>) w1)))
     else Some w)"

text \<open>Lines 420-421: the two arrays built above become the states' paths.\<close>
definition install_paths :: "tid \<Rightarrow> ref \<Rightarrow> world \<Rightarrow> world" where
  "install_paths t ts w =
    (let a = nextref w;
         w1 = w\<lparr>arrays := (arrays w)(a := surrogateToPath (closures w t),
                                      a + 1 := surrogateFromPath (closures w t)),
                nextref := a + 2\<rparr>;
         w2 = upd_node ts (\<lambda>n. n\<lparr>path := Some a\<rparr>) w1
     in upd_node (fromState (closures w2 t)) (\<lambda>n. n\<lparr>path := Some (a + 1)\<rparr>) w2)"

text \<open>Lines 423-427.\<close>
definition pathMessage :: "world \<Rightarrow> ref \<Rightarrow> string" where
  "pathMessage w state =
     (case surrogateType (nodes w state) of None \<Rightarrow> [] | Some ty \<Rightarrow> ty @ '':'')
       @ name_text (name (selfs w (self_of w state)))"

definition debug_paths :: "tid \<Rightarrow> world \<Rightarrow> world" where
  "debug_paths t w =
    (if DEBUG (closures w t) then
       w\<lparr>logged := logged w @
           [SurrogateFromPathMsg (map (pathMessage w) (surrogateFromPath (closures w t))),
            SurrogateToPathMsg (map (pathMessage w) (surrogateToPath (closures w t)))]\<rparr>
     else w)"

text \<open>Lines 267-428, for a target that was found.\<close>
definition substitute :: "request \<Rightarrow> tid \<Rightarrow> ref \<Rightarrow> world \<Rightarrow> world option" where
  "substitute rq t ts w = do {
      w1 \<leftarrow> save_paths rq t ts w;
      w2 \<leftarrow> Some (debug_transition t (reload_params rq t (register_pending t w1)));
      w3 \<leftarrow> slice_paths rq t ts w2;
      w4 \<leftarrow> forEach load_inactive_locals (inactives (stickyTransitions rq)) (clear_inactive_locals w3);
      w5 \<leftarrow> forEach (enter_step t) (enumerate 0 (enter (stickyTransitions rq))) w4;
      w6 \<leftarrow> forEach (exit_step t) (enumerate 0 (exit (stickyTransitions rq))) w5;
      w7 \<leftarrow> exit_orphans rq t ts (push_reactivated t w6);
      Some (debug_paths t (install_paths t ts w7))
    }"

text \<open>Lines 125-148: what every invocation does before it looks at its target.\<close>
definition start :: "request \<Rightarrow> world \<Rightarrow> (tid \<times> world) option" where
  "start rq w = do { w1 \<leftarrow> link_inactive_locals w; Some (begin_transition rq w1) }"

text \<open>
  The decorated function up to the call of UI-Router's own \<open>transitionTo\<close> (line 432): the
  result is the invocation, whose promise handlers run later, and the world handed to
  UI-Router. \<open>None\<close> is a \<open>TypeError\<close> thrown on the way.
\<close>
definition transitionTo :: "request \<Rightarrow> world \<Rightarrow> (tid \<times> world) option" where
  "transitionTo rq w = do {
      (t, w0) \<leftarrow> start rq w;
      (case target rq of
         None \<Rightarrow> Some (t, w0)
       | Some ts \<Rightarrow> do { w' \<leftarrow> substitute rq t ts w0; Some (t, w') })
    }"

subsection \<open>The promise handlers (lines 435-453)\<close>

text \<open>
  What UI-Router's promise is fulfilled with, as far as the success handler looks at it:
  the value \<open>state\<close> (a \<open>self\<close> object; \<open>None\<close> is \<open>undefined\<close> or \<open>null\<close>, which the promise of a
  \<open>$stateNotFound\<close> retry can deliver); \<open>internalStates[state.name]\<close>, a table of another
  file; and the line that lines 496-518 build from the \<open>parent\<close> links of UI-Router's state
  objects and the \<open>$$state\<close> of each view local, \<open>None\<close> when one of those reads throws.
\<close>
record fulfilment =
  resolved :: "ref option"
  currentState :: "ref option"
  viewsMessage :: "string option"

text \<open>
  How the promise returned to the caller settles: with the value the success handler
  returns, with the reason the failure handler rejects with (\<open>None\<close> is \<open>undefined\<close> or
  \<open>null\<close>), or with the \<open>TypeError\<close> a handler throws.
\<close>
datatype settled = Resolved ref | Rejected "err option" | TypeError

text \<open>Lines 491-521. \<open>currentState.self.name\<close> throws for a state that \<open>internalStates\<close> does not
  hold, before anything is logged; the result says whether the function returned.\<close>
definition debugViewsAfterSuccess :: "fulfilment \<Rightarrow> world \<Rightarrow> bool \<times> world" where
  "debugViewsAfterSuccess f w =
    (case currentState f of
       None \<Rightarrow> (False, w)
     | Some cs \<Rightarrow>
        (let w1 = w\<lparr>logged := logged w @ [CurrentStateMsg cs]\<rparr>
         in case viewsMessage f of
              None \<Rightarrow> (False, w1)
            | Some m \<Rightarrow> (True, w1\<lparr>logged := logged w1 @ [ViewsMsg m]\<rparr>)))"

text \<open>Lines 435-443. With \<open>DEBUG\<close> set, \<open>state.name\<close> is read first (line 438); \<open>state.status =
  'active'\<close> (line 440) throws for a value that is \<open>undefined\<close> or \<open>null\<close>.\<close>
definition transitionSuccess :: "tid \<Rightarrow> fulfilment \<Rightarrow> world \<Rightarrow> settled \<times> world" where
  "transitionSuccess t f w =
    (let w1 = restore t w
     in case resolved f of
          None \<Rightarrow> (TypeError, w1)
        | Some state \<Rightarrow>
           (let (returned, w2) = (if DEBUG (closures w1 t) then debugViewsAfterSuccess f w1
                                  else (True, w1))
            in if returned
               then (Resolved state, upd_self state (\<lambda>s. s\<lparr>status := Some ''active''\<rparr>) w2)
               else (TypeError, w2)))"

text \<open>Lines 443-453. With \<open>DEBUG\<close> set, \<open>err.message\<close> is read (line 446), which throws for a
  reason that is \<open>undefined\<close> or \<open>null\<close>.\<close>
definition transitionFailed :: "tid \<Rightarrow> err option \<Rightarrow> world \<Rightarrow> settled \<times> world" where
  "transitionFailed t reason w =
    (let w1 = restore t w
     in if DEBUG (closures w1 t) then
          (case reason of
             None \<Rightarrow> (TypeError, w1)
           | Some e \<Rightarrow>
              if message e \<noteq> Some ''transition prevented'' \<and>
                 message e \<noteq> Some ''transition aborted'' \<and>
                 message e \<noteq> Some ''transition superseded''
              then (Rejected reason,
                    w1\<lparr>logged := logged w1 @ [TransitionFailedMsg e, ConsoleLog (stack e)]\<rparr>)
              else (Rejected reason, w1))
        else (Rejected reason, w1))"

subsection \<open>Hooks as UI-Router fires them\<close>

text \<open>A call into the \<open>$stickyState\<close> service, or of a function of the state's declaration.\<close>
datatype call =
    StateReactivated ref
  | StateInactivated ref
  | StateEntering ref "props option" hook bool
  | StateExiting ref "ref list" hook
  | UserCall nat

text \<open>The body of each hook: its effect on the objects of this file and the calls it makes,
  in order. \<open>exited\<close> is read when the hook runs.\<close>
fun fire :: "hook \<Rightarrow> world \<Rightarrow> world \<times> call list" where
  "fire NoHook w = (w, [])"
| "fire (UserFn f) w = (w, [UserCall f])"
| "fire (ReactivatedOnEnter surrogate state) w =
     (upd_node surrogate (\<lambda>n. n\<lparr>locals := locals (nodes w state)\<rparr>) w, [StateReactivated state])"
| "fire (InactivatedOnExit state) w = (w, [StateInactivated state])"
| "fire (EnteringOnEnter state toParams' oldOnEnter updateParams) w =
     (w, [StateEntering state toParams' oldOnEnter updateParams])"
| "fire (ExitingOnExit state t oldOnExit) w =
     (w, [StateExiting state (exited (closures w t)) oldOnExit])"

text \<open>
  Modelled from the spec: the external engine runs the exit hooks of the from-path elements
  beyond its own pivot "in leaf-to-root order", the last element of the path first (section
  6 of the spec; the engine is UI-Router, whose code is not in this repository).
\<close>
definition exit_order :: "nat \<Rightarrow> ref list \<Rightarrow> ref list" where
  "exit_order pivot fromPath = rev (drop pivot fromPath)"

subsection \<open>Runs: requests and settlements in any order\<close>

text \<open>A handler that throws leaves the world as it is at the throw.\<close>
datatype event =
    Request request
  | Succeed tid fulfilment
  | Fail tid "err option"

fun step :: "event \<Rightarrow> world \<Rightarrow> world option" where
  "step (Request rq) w = map_option snd (transitionTo rq w)"
| "step (Succeed t f) w = Some (snd (transitionSuccess t f w))"
| "step (Fail t reason) w = Some (snd (transitionFailed t reason w))"

definition run :: "event list \<Rightarrow> world \<Rightarrow> world option" where
  "run evs w = forEach step evs w"

subsection \<open>Predicates of the proofs\<close>

text \<open>Every listed state is an allocated object, and so is its \<open>self\<close>.\<close>
definition allocated :: "world \<Rightarrow> ref list \<Rightarrow> bool" where
  "allocated w xs = list_all (\<lambda>x. x < nextref w \<and> self_of w x < nextref w) xs"

text \<open>
  What no step of a substitution touches before the two paths are installed: objects
  allocated earlier (but for the hook slots of \<open>self\<close> objects), all arrays, the
  module-level variables, other invocations' variables, and the variables of invocation
  \<open>t\<close> that are assigned once.
\<close>
definition frame :: "tid \<Rightarrow> world \<Rightarrow> world \<Rightarrow> bool" where
  "frame t w w' \<longleftrightarrow>
     nextref w \<le> nextref w' \<and>
     (\<forall>r<nextref w. nodes w' r = nodes w r \<and> lobjs w' r = lobjs w r \<and> pobjs w' r = pobjs w r \<and>
        name (selfs w' r) = name (selfs w r) \<and> status (selfs w' r) = status (selfs w r)) \<and>
     arrays w' = arrays w \<and> root w' = root w \<and> inactivePseudoState w' = inactivePseudoState w \<and>
     hasParamSet w' = hasParamSet w \<and> pendingTransitions w' = pendingTransitions w \<and>
     pendingRestore w' = pendingRestore w \<and> invocations w' = invocations w \<and>
     logged w' = logged w \<and>
     (\<forall>u. u \<noteq> t \<longrightarrow> closures w' u = closures w u) \<and>
     DEBUG (closures w' t) = DEBUG (closures w t) \<and> idx (closures w' t) = idx (closures w t) \<and>
     toState (closures w' t) = toState (closures w t) \<and>
     fromState (closures w' t) = fromState (closures w t) \<and>
     toParams (closures w' t) = toParams (closures w t) \<and>
     fromParams (closures w' t) = fromParams (closures w t) \<and>
     reloadStateTree (closures w' t) = reloadStateTree (closures w t) \<and>
     savedToStatePath (closures w' t) = savedToStatePath (closures w t) \<and>
     savedFromStatePath (closures w' t) = savedFromStatePath (closures w t) \<and>
     restored (closures w' t) = restored (closures w t)"

text \<open>The \<open>self\<close> objects whose \<open>onEnter\<close> (\<open>onExit\<close>) slot a list of restore functions resets.\<close>
definition enter_targets :: "world \<Rightarrow> undo list \<Rightarrow> ref set" where
  "enter_targets w us = {self_of w st |st h. RestoreOnEnter st h \<in> set us}"

definition exit_targets :: "world \<Rightarrow> undo list \<Rightarrow> ref set" where
  "exit_targets w us = {self_of w st |st h. RestoreOnExit st h \<in> set us}"

text \<open>
  The ledger of invocation \<open>t\<close> in world \<open>w\<close> can undo every hook wrapped since world \<open>w0\<close>:
  each restore function concerns a state of \<open>w0\<close> and holds the hook that state had in \<open>w0\<close>,
  and a slot that no restore function resets still holds what it held in \<open>w0\<close>.
\<close>
definition ledger_ok :: "world \<Rightarrow> tid \<Rightarrow> world \<Rightarrow> bool" where
  "ledger_ok w0 t w \<longleftrightarrow>
     (\<forall>st h. RestoreOnEnter st h \<in> set (restoreFunctions (closures w t)) \<longrightarrow>
        st < nextref w0 \<and> self_of w0 st < nextref w0 \<and> h = onEnter (selfs w0 (self_of w0 st))) \<and>
     (\<forall>st h. RestoreOnExit st h \<in> set (restoreFunctions (closures w t)) \<longrightarrow>
        st < nextref w0 \<and> self_of w0 st < nextref w0 \<and> h = onExit (selfs w0 (self_of w0 st))) \<and>
     (\<forall>s<nextref w0.
        (s \<notin> enter_targets w0 (restoreFunctions (closures w t)) \<longrightarrow>
           onEnter (selfs w s) = onEnter (selfs w0 s)) \<and>
        (s \<notin> exit_targets w0 (restoreFunctions (closures w t)) \<longrightarrow>
           onExit (selfs w s) = onExit (selfs w0 s)))"

text \<open>The restore functions that reset a hook slot.\<close>
fun is_hook_undo :: "undo \<Rightarrow> bool" where
  "is_hook_undo (RestoreOnEnter st h) = True"
| "is_hook_undo (RestoreOnExit st h) = True"
| "is_hook_undo (DeleteReloadParam ps ops) = False"
| "is_hook_undo (PopReloadParam ps ops) = False"

text \<open>The saved paths survive the steps after \<open>save_paths\<close>.\<close>
definition saved_kept :: "tid \<Rightarrow> world \<Rightarrow> world \<Rightarrow> bool" where
  "saved_kept t w w' \<longleftrightarrow>
     savedToStatePath (closures w' t) = savedToStatePath (closures w t) \<and>
     savedFromStatePath (closures w' t) = savedFromStatePath (closures w t)"

text \<open>
  What the steps between the start of an invocation and its two loops leave alone: they
  allocate nothing and touch no state, \<open>self\<close> or array; of the invocation's variables
  they assign the saved paths, the reload state, \<open>toParams\<close>, the two path variables and
  the ledger, to which they add no hook restore.
\<close>
definition prep :: "tid \<Rightarrow> world \<Rightarrow> world \<Rightarrow> bool" where
  "prep t w w' \<longleftrightarrow>
     nodes w' = nodes w \<and> selfs w' = selfs w \<and> arrays w' = arrays w \<and> nextref w' = nextref w \<and>
     root w' = root w \<and> inactivePseudoState w' = inactivePseudoState w \<and>
     hasParamSet w' = hasParamSet w \<and> invocations w' = invocations w \<and>
     (\<forall>u. u \<noteq> t \<longrightarrow> closures w' u = closures w u) \<and>
     DEBUG (closures w' t) = DEBUG (closures w t) \<and> idx (closures w' t) = idx (closures w t) \<and>
     toState (closures w' t) = toState (closures w t) \<and>
     fromState (closures w' t) = fromState (closures w t) \<and>
     fromParams (closures w' t) = fromParams (closures w t) \<and>
     restored (closures w' t) = restored (closures w t) \<and>
     reactivated (closures w' t) = reactivated (closures w t) \<and>
     exited (closures w' t) = exited (closures w t) \<and>
     terminalReactivatedState (closures w' t) = terminalReactivatedState (closures w t) \<and>
     filter is_hook_undo (restoreFunctions (closures w' t)) =
       filter is_hook_undo (restoreFunctions (closures w t))"

text \<open>The inactive states that lines 405-411 find below the state \<open>ts\<close>, in the order in
  which they are appended.\<close>
definition orphans_of :: "world \<Rightarrow> ref \<Rightarrow> ref list \<Rightarrow> ref list" where
  "orphans_of w ts inactive =
     rev (sort_key (state_toString w)
       (filter (\<lambda>e. starts_with (state_toString w e) (state_toString w ts @ ''.'')) inactive))"


text \<open>The states at the first \<open>n\<close> positions of a path that a classification array marks
  \<open>"inactivate"\<close> or \<open>"exit"\<close>.\<close>
definition leaving :: "string option list \<Rightarrow> ref list \<Rightarrow> nat \<Rightarrow> ref list" where
  "leaving xs arr n =
     map (\<lambda>i. arr ! i) (filter (\<lambda>i. xs ! i = Some ''inactivate'' \<or> xs ! i = Some ''exit'') [0..<n])"

text \<open>The states at the first \<open>n\<close> positions of a path that a classification array marks
  \<open>"reactivate"\<close>, \<open>"updateStateParams"\<close> or \<open>"enter"\<close>.\<close>
definition entering :: "string option list \<Rightarrow> ref list \<Rightarrow> nat \<Rightarrow> ref list" where
  "entering xs arr n =
     map (\<lambda>i. arr ! i)
       (filter (\<lambda>i. xs ! i = Some ''reactivate'' \<or> xs ! i = Some ''updateStateParams'' \<or>
                    xs ! i = Some ''enter'') [0..<n])"

text \<open>
  A step of invocation \<open>t\<close> that wraps the \<open>onEnter\<close> slot of state \<open>st\<close>: the ledger grows by one
  restore function, which holds what the slot held; the slot holds \<open>h\<close>; every other hook
  slot of an object allocated before the step is as it was.
\<close>
definition wraps_enter :: "tid \<Rightarrow> ref \<Rightarrow> hook \<Rightarrow> world \<Rightarrow> world \<Rightarrow> bool" where
  "wraps_enter t st h w w' \<longleftrightarrow>
     restoreFunctions (closures w' t) =
       restoreFunctions (closures w t) @ [RestoreOnEnter st (onEnter (selfs w (self_of w st)))] \<and>
     (\<forall>s<nextref w. onExit (selfs w' s) = onExit (selfs w s) \<and>
        onEnter (selfs w' s) = (if s = self_of w st then h else onEnter (selfs w s)))"

text \<open>The same for the \<open>onExit\<close> slot.\<close>
definition wraps_exit :: "tid \<Rightarrow> ref \<Rightarrow> hook \<Rightarrow> world \<Rightarrow> world \<Rightarrow> bool" where
  "wraps_exit t st h w w' \<longleftrightarrow>
     restoreFunctions (closures w' t) =
       restoreFunctions (closures w t) @ [RestoreOnExit st (onExit (selfs w (self_of w st)))] \<and>
     (\<forall>s<nextref w. onEnter (selfs w' s) = onEnter (selfs w s) \<and>
        onExit (selfs w' s) = (if s = self_of w st then h else onExit (selfs w s)))"

text \<open>No state allocated so far that is not a surrogate has a surrogate on its path.\<close>
definition surrogate_free :: "world \<Rightarrow> bool" where
  "surrogate_free w =
     list_all (\<lambda>r. surrogateType (nodes w r) \<noteq> None \<or>
        (case path (nodes w r) of
           None \<Rightarrow> True
         | Some a \<Rightarrow> list_all (\<lambda>x. surrogateType (nodes w x) = None) (arrays w a)))
       [0..<nextref w]"

text \<open>Every path of an allocated state is an allocated array of allocated states.\<close>
definition paths_allocated :: "world \<Rightarrow> bool" where
  "paths_allocated w =
     list_all (\<lambda>r. case path (nodes w r) of
           None \<Rightarrow> True
         | Some a \<Rightarrow> a < nextref w \<and> list_all (\<lambda>x. x < nextref w) (arrays w a))
       [0..<nextref w]"


subsection \<open>A small state tree for the worked examples\<close>

text \<open>
  Object 0 is the pseudo state \<open>__inactives\<close>, 1 the root, 2 the state \<open>A\<close>, 3 \<open>A.B\<close>,
  4 \<open>A.B.C\<close> and 5 the state \<open>P\<close>. State \<open>i\<close> has its \<open>self\<close> at \<open>10 + i\<close>, its \<open>locals\<close> at
  \<open>20 + i\<close>, its \<open>path\<close> array at \<open>30 + i\<close> and its parameters at \<open>40 + i\<close> and \<open>50 + i\<close>;
  its \<open>onEnter\<close> and \<open>onExit\<close> are the user functions \<open>2 * i\<close> and \<open>2 * i + 1\<close>.
\<close>

definition blank_self :: selfobj where
  "blank_self = \<lparr>name = None, onEnter = NoHook, onExit = NoHook, status = None\<rparr>"

definition blank_node :: node where
  "blank_node = \<lparr>self = 0, path = None, locals = None, resolve = [], views = [],
     params = 0, ownParams = 0, surrogateType = None\<rparr>"

definition blank_closure :: closure where
  "blank_closure = \<lparr>DEBUG = False, idx = 0, toState = None, fromState = 0, toParams = [],
     fromParams = [], reloadStateTree = None, savedToStatePath = None, savedFromStatePath = None,
     restoreFunctions = [], restored = True, surrogateToPath = [], surrogateFromPath = [],
     reactivated = [], exited = [], terminalReactivatedState = None\<rparr>"

definition real_state :: "nat \<Rightarrow> node" where
  "real_state i = \<lparr>self = 10 + i, path = Some (30 + i), locals = Some (20 + i),
     resolve = [(''data'', Some (60 + i))], views = [(''main'', Some (70 + i))],
     params = 40 + i, ownParams = 50 + i, surrogateType = None\<rparr>"

definition decl :: "string \<Rightarrow> nat \<Rightarrow> selfobj" where
  "decl nm i = \<lparr>name = Some nm, onEnter = UserFn (2 * i), onExit = UserFn (2 * i + 1), status = None\<rparr>"

definition tree :: world where
  "tree = \<lparr>
     nodes = (\<lambda>r. blank_node)(0 := (real_state 0)\<lparr>path := None, surrogateType := Some ''__inactives''\<rparr>,
        1 := real_state 1, 2 := real_state 2, 3 := real_state 3, 4 := real_state 4, 5 := real_state 5),
     selfs = (\<lambda>r. blank_self)(10 := decl ''__inactives'' 0, 11 := decl [] 1, 12 := decl ''A'' 2,
        13 := decl ''A.B'' 3, 14 := decl ''A.B.C'' 4, 15 := decl ''P'' 5),
     arrays = (\<lambda>r. [])(31 := [1], 32 := [1, 2], 33 := [1, 2, 3], 34 := [1, 2, 3, 4], 35 := [1, 5]),
     lobjs = (\<lambda>r. [])(20 := [(''stale@A'', Some 99)], 21 := [(''globals'', Some 80)],
        22 := [(''globals'', Some 81), (''@A'', Some 82)],
        23 := [(''globals'', Some 83), (''b@A'', Some 84)],
        24 := [(''globals'', Some 85), (''c@A.B'', Some 86)],
        25 := [(''globals'', Some 87), (''@P'', Some 88)]),
     protos = (\<lambda>r. [])(21 := [20], 22 := [21, 20], 23 := [22, 21, 20], 24 := [23, 22, 21, 20],
        25 := [21, 20]),
     pobjs = (\<lambda>r. []),
     nextref = 100,
     root = Some 1,
     inactivePseudoState = 0,
     hasParamSet = True,
     pendingTransitions = [],
     pendingRestore = None,
     closures = (\<lambda>t. blank_closure),
     invocations = 0,
     logged = []\<rparr>"

text \<open>A plain request from state \<open>from\<close> to state \<open>to\<close> under the root: with the two
  classification arrays \<open>ens\<close> and \<open>exs\<close>.\<close>
definition go :: "ref \<Rightarrow> ref option \<Rightarrow> string option list \<Rightarrow> string option list \<Rightarrow> request" where
  "go from to ens exs = \<lparr>target = to, toParamsArg = None, reload = NoReload, current = from,
     currentParams = None, debugMode = False, randomNumber = 7,
     stickyTransitions = \<lparr>keep = 1, enter = ens, exit = exs, inactives = []\<rparr>,
     inactiveStates = []\<rparr>"

definition superseded :: "err option" where
  "superseded = Some \<lparr>message = Some ''transition superseded'', stack = Some []\<rparr>"

text \<open>UI-Router's promise fulfilled with the declaration of state \<open>i\<close> of the tree.\<close>
definition reached :: "nat \<Rightarrow> fulfilment" where
  "reached i = \<lparr>resolved = Some (10 + i), currentState = Some i, viewsMessage = Some []\<rparr>"


text \<open>A promise fulfilled with \<open>undefined\<close>.\<close>
definition no_value :: fulfilment where
  "no_value = \<lparr>resolved = None, currentState = None, viewsMessage = None\<rparr>"

text \<open>From \<open>P\<close> to \<open>A\<close> with debugging on: \<open>A\<close> is entered, the sticky state \<open>P\<close> inactivated.\<close>
definition debugged :: request where
  "debugged = (go 5 (Some 2) [None, Some ''enter''] [None, Some ''inactivate''])\<lparr>debugMode := True\<rparr>"

text \<open>From \<open>P\<close> to \<open>A.B\<close>, where \<open>A\<close> is re-entered with changed parameters and \<open>A.B\<close> is
  reactivated.\<close>
definition reactivate_below_update :: request where
  "reactivate_below_update =
     (go 5 (Some 3) [None, Some ''updateStateParams'', Some ''reactivate''] [None, Some ''exit''])
       \<lparr>inactiveStates := [2, 3]\<rparr>"

text \<open>A request whose target does not resolve while \<open>P\<close> is current, then two requests that
  leave the sticky state \<open>P\<close>; the first promise is rejected between them.\<close>
definition unresolved_then_two :: "event list" where
  "unresolved_then_two =
     [Request (go 5 None [] []),
      Request (go 5 (Some 2) [None, Some ''enter''] [None, Some ''inactivate'']),
      Fail 0 (Some \<lparr>message = Some ''transition aborted'', stack = Some []\<rparr>),
      Request (go 5 (Some 3) [None, Some ''enter'', Some ''enter''] [None, Some ''inactivate''])]"

text \<open>Two overlapping requests from the root, the first superseded, the second successful.\<close>
definition two_overlapping :: "event list" where
  "two_overlapping =
     [Request (go 1 (Some 2) [None, Some ''enter''] []),
      Request (go 1 (Some 5) [None, Some ''enter''] []),
      Fail 0 superseded,
      Succeed 1 (reached 5)]"

text \<open>From \<open>P\<close> back to the inactive state \<open>A\<close>, which is reactivated while its descendants
  \<open>A.B\<close> and \<open>A.B.C\<close> are inactive; \<open>P\<close> is sticky and becomes inactive.\<close>
definition back_to_A :: request where
  "back_to_A = (go 5 (Some 2) [None, Some ''reactivate''] [None, Some ''inactivate''])
     \<lparr>inactiveStates := [2, 3, 4],
      stickyTransitions := \<lparr>keep = 1, enter = [None, Some ''reactivate''],
         exit = [None, Some ''inactivate''], inactives = [5, 3, 4]\<rparr>\<rparr>"

section \<open>Proofs\<close>

subsection \<open>Evaluating the model on concrete worlds\<close>

lemma bind_weak_cong: "m = m' \<Longrightarrow> Option.bind m f = Option.bind m' f"
  by simp

lemmas eval_congs = let_weak_cong if_weak_cong option.case_cong_weak prod.case_cong_weak
  bind_weak_cong list.case_cong_weak

lemmas model_defs = transitionTo_def start_def link_inactive_locals_def begin_transition_def
  run_pendingRestore_def substitute_def save_paths_def register_pending_def reload_params_def
  debug_transition_def slice_paths_def clear_inactive_locals_def clear_views_def
  load_inactive_locals_def copy_views_def enter_step_def exit_step_def push_reactivated_def
  reactivate_branch_def updateStateParams_branch_def enter_branch_def inactivate_branch_def
  exit_branch_def
  exit_orphans_def install_paths_def debug_paths_def pathMessage_def
  stateReactivatedSurrogatePhase1_def stateReactivatedSurrogatePhase2_def
  stateInactivatedSurrogate_def stateEnteredSurrogate_def stateUpdateParamsSurrogate_def
  stateExitedSurrogate_def SurrogateState_def root_globals_def addRestoreFunction_def
  upd_closure_def
  upd_node_def upd_self_def self_of_def nth_opt_def name_text_def has_at_def starts_with_def
  state_toString_def restore_def restore_body_def splice1_def set_key_def
  transitionSuccess_def transitionFailed_def debugViewsAfterSuccess_def run_def

lemmas example_defs = tree_def go_def superseded_def reached_def real_state_def decl_def blank_self_def
  blank_node_def blank_closure_def reactivate_below_update_def unresolved_then_two_def
  two_overlapping_def back_to_A_def no_value_def debugged_def

subsection \<open>The restore function\<close>

lemma restored_restore_body: "restored (closures (restore_body t w) t)"
  by (simp add: restore_body_def Let_def upd_closure_def)

lemma pendingRestore_restore_body: "pendingRestore (restore_body t w) = None"
  by (simp add: restore_body_def Let_def)

text \<open>
  C2. Calling a transition's \<open>restore()\<close> twice leaves the world (state tree, hook slots,
  pending-transition list, pending-restore slot) as calling it once does, also when the
  first call came through the \<open>pendingRestore\<close> slot, and so does any number of further
  calls; the guarded call of the slot is idempotent too.
\<close>
theorem restore_twice_is_restore_once:
  "restore t (restore t w) = restore t w \<and>
   restore t (restore_body t w) = restore_body t w \<and>
   (restore t ^^ Suc n) w = restore t w \<and>
   run_pendingRestore (run_pendingRestore w) = run_pendingRestore w"
proof -
  have once: "restore t (restore t v) = restore t v" for v
    by (simp add: restore_def restored_restore_body)
  have body: "restore t (restore_body t w) = restore_body t w"
    by (simp add: restore_def restored_restore_body)
  have many: "(restore t ^^ Suc n) w = restore t w"
  proof (induction n)
    case 0
    show ?case by simp
  next
    case (Suc n)
    have "(restore t ^^ Suc (Suc n)) w = restore t ((restore t ^^ Suc n) w)" by simp
    also have "\<dots> = restore t (restore t w)" using Suc by simp
    finally show ?case using once by simp
  qed
  have pend: "run_pendingRestore (run_pendingRestore w) = run_pendingRestore w"
    by (cases "pendingRestore w") (simp_all add: run_pendingRestore_def pendingRestore_restore_body)
  from once body many pend show ?thesis by blast
qed

subsection \<open>The promise handlers\<close>















subsection \<open>Runs that break the bookkeeping\<close>

text \<open>
  C9. The second of two overlapping requests reads \<open>idx = 1\<close> (line 131) before the pending
  restore of the first removes the first record; its own record is then pushed at index 0.
  When its restore step runs, \<open>splice(1, 1)\<close> removes nothing: both transitions are
  restored, nothing is pending, and record 1 is still in the list.
\<close>
theorem finished_transition_stays_listed:
  "map_option (\<lambda>w. (pendingTransitions w, restored (closures w 0), restored (closures w 1),
                    pendingRestore w, idx (closures w 1)))
     (run two_overlapping tree) = Some ([1], True, True, None, 1)"
  by (simp add: model_defs example_defs Let_def cong: eval_congs)

text \<open>
  C3. A request whose target does not resolve registers no restore, but its promise handler
  still runs the restore body, which clears the \<open>pendingRestore\<close> slot of whichever
  transition is pending then. After the four events below, transitions 1 and 2 are both
  unrestored and the paths of \<open>A\<close> (object 2), \<open>A.B\<close> (3) and \<open>P\<close> (5) are substitutes: the
  second request did not roll the first back. After both have settled, \<open>P\<close> keeps the first
  transition's substitute path, which holds an \<open>inactivate\<close> surrogate, and its \<open>onExit\<close>
  slot keeps the wrapper instead of user function 11.
\<close>
theorem two_substitutions_installed_at_once:
  "map_option (\<lambda>w. (restored (closures w 1), restored (closures w 2), pendingRestore w,
                    map (\<lambda>r. path (nodes w r)) [2, 3, 5]))
     (run unresolved_then_two tree) = Some (False, False, Some 2, [Some 105, Some 112, Some 113]) \<and>
   map_option (\<lambda>w. (restored (closures w 1), restored (closures w 2), pendingRestore w,
                    map (\<lambda>r. path (nodes w r)) [2, 3, 5], arrays w 106,
                    surrogateType (nodes w 100), onExit (selfs w 15)))
     (run (unresolved_then_two @ [Fail 1 superseded, Succeed 2 (reached 3)]) tree) =
     Some (True, True, None, [Some 32, Some 33, Some 106], [1, 100], Some ''inactivate'',
           InactivatedOnExit 5)"
  by (simp add: model_defs example_defs Let_def cong: eval_congs)

subsection \<open>Reactivation below a state that is not reactivated\<close>

text \<open>
  C1. With \<open>A\<close> classified \<open>updateStateParams\<close> and \<open>A.B\<close> classified \<open>reactivate\<close>, the phase-1
  surrogate of \<open>A.B\<close> (object 100) is pushed onto a to-path that already got \<open>A\<close> and onto a
  from-path that did not: it stands at index 2 of the one and index 1 of the other, and the
  two substitute paths differ at index 1. The phase-2 surrogate (object 106) is last on the
  to-path only.
\<close>
theorem phase1_surrogate_at_different_indices:
  "map_option (\<lambda>(t, w). (map_option (arrays w) (path (nodes w 3)),
                         map_option (arrays w) (path (nodes w 5)),
                         surrogateType (nodes w 100), surrogateType (nodes w 106)))
     (transitionTo reactivate_below_update tree) =
     Some (Some [1, 2, 100, 106], Some [1, 100, 5],
           Some ''reactivate_phase1'', Some ''reactivate_phase2'')"
  by (simp add: model_defs example_defs Let_def cong: eval_congs)

subsection \<open>What the factories and the branches leave alone\<close>

lemmas builder_defs = stateReactivatedSurrogatePhase1_def stateReactivatedSurrogatePhase2_def
  stateInactivatedSurrogate_def stateEnteredSurrogate_def stateUpdateParamsSurrogate_def
  stateExitedSurrogate_def SurrogateState_def Let_def upd_node_def upd_self_def
  addRestoreFunction_def upd_closure_def

lemmas branch_defs = reactivate_branch_def updateStateParams_branch_def enter_branch_def
  inactivate_branch_def exit_branch_def

lemma frame_refl: "frame t w w"
  by (simp add: frame_def)

lemma frame_trans: "frame t w1 w2 \<Longrightarrow> frame t w2 w3 \<Longrightarrow> frame t w1 w3"
  unfolding frame_def by (intro conjI allI impI; simp)

lemma frame_builders:
  "frame t w (snd (stateReactivatedSurrogatePhase1 st w))"
  "frame t w (snd (stateReactivatedSurrogatePhase2 t st w))"
  "frame t w (snd (stateInactivatedSurrogate t st w))"
  "frame t w (snd (stateEnteredSurrogate t st tp w))"
  "frame t w (snd (stateUpdateParamsSurrogate t st tp w))"
  "frame t w (snd (stateExitedSurrogate t st w))"
  by (simp_all add: builder_defs self_of_def frame_def cong: eval_congs)

lemma frame_upd_local:
  assumes "frame t w v"
    and "\<And>c. DEBUG (f c) = DEBUG c \<and> idx (f c) = idx c \<and> toState (f c) = toState c \<and>
     fromState (f c) = fromState c \<and> toParams (f c) = toParams c \<and> fromParams (f c) = fromParams c \<and>
     reloadStateTree (f c) = reloadStateTree c \<and> savedToStatePath (f c) = savedToStatePath c \<and>
     savedFromStatePath (f c) = savedFromStatePath c \<and> restored (f c) = restored c"
  shows "frame t w (upd_closure t f v)"
  using assms by (simp add: frame_def upd_closure_def)

lemma frame_after:
  "frame t w v \<Longrightarrow> frame t w (snd (stateReactivatedSurrogatePhase1 st v))"
  "frame t w v \<Longrightarrow> frame t w (snd (stateReactivatedSurrogatePhase2 t st v))"
  "frame t w v \<Longrightarrow> frame t w (snd (stateInactivatedSurrogate t st v))"
  "frame t w v \<Longrightarrow> frame t w (snd (stateEnteredSurrogate t st tp v))"
  "frame t w v \<Longrightarrow> frame t w (snd (stateUpdateParamsSurrogate t st tp v))"
  "frame t w v \<Longrightarrow> frame t w (snd (stateExitedSurrogate t st v))"
  by (erule frame_trans, rule frame_builders)+

lemma frame_branches:
  "frame t w (reactivate_branch t st w)"
  "frame t w (updateStateParams_branch t st w)"
  "frame t w (enter_branch t st w)"
  "frame t w (inactivate_branch t st w)"
  "frame t w (exit_branch t st w)"
  unfolding branch_defs Let_def split_def
  by (intro frame_upd_local frame_after frame_refl; simp)+

lemma frame_enter_step: "enter_step t iv w = Some w' \<Longrightarrow> frame t w w'"
  by (auto simp: enter_step_def Let_def frame_branches frame_refl split: option.splits if_splits)

lemma frame_exit_step: "exit_step t iv w = Some w' \<Longrightarrow> frame t w w'"
  by (auto simp: exit_step_def Let_def frame_branches frame_refl split: option.splits if_splits)

subsection \<open>Loops\<close>

lemma forEach_inv:
  assumes "forEach f xs w = Some w'" and "P w"
      and "\<And>x v v'. x \<in> set xs \<Longrightarrow> P v \<Longrightarrow> f x v = Some v' \<Longrightarrow> P v'"
  shows "P w'"
  using assms
proof (induction xs arbitrary: w)
  case Nil
  then show ?case by simp
next
  case (Cons x xs)
  from Cons.prems(1) obtain w1 where f1: "f x w = Some w1" and rest: "forEach f xs w1 = Some w'"
    by (auto split: option.splits)
  have p1: "P w1" using Cons.prems(3)[of x w w1] Cons.prems(2) f1 by simp
  show ?case
  proof (rule Cons.IH[OF rest p1])
    fix y v v' assume "y \<in> set xs" "P v" "f y v = Some v'"
    then show "P v'" using Cons.prems(3)[of y v v'] by simp
  qed
qed

lemma forEach_enumerate_inv:
  assumes "forEach f (enumerate n xs) w = Some w'"
      and "P n w"
      and "\<And>i v v'. n \<le> i \<Longrightarrow> i < n + length xs \<Longrightarrow> P i v \<Longrightarrow>
             f (i, xs ! (i - n)) v = Some v' \<Longrightarrow> P (Suc i) v'"
  shows "P (n + length xs) w'"
  using assms
proof (induction xs arbitrary: n w)
  case Nil
  then show ?case by simp
next
  case (Cons x xs)
  from Cons.prems(1) obtain w1 where f1: "f (n, x) w = Some w1"
    and rest: "forEach f (enumerate (Suc n) xs) w1 = Some w'"
    by (auto split: option.splits)
  have p1: "P (Suc n) w1"
    using Cons.prems(3)[of n w w1] Cons.prems(2) f1 by simp
  have "P (Suc n + length xs) w'"
  proof (rule Cons.IH[OF rest p1])
    fix i v v'
    assume a: "Suc n \<le> i" "i < Suc n + length xs" "P i v" "f (i, xs ! (i - Suc n)) v = Some v'"
    have "(x # xs) ! (i - n) = xs ! (i - Suc n)"
      using a(1) by (simp add: nth_Cons' Suc_diff_le)
    then show "P (Suc i) v'"
      using Cons.prems(3)[of i v v'] a by simp
  qed
  then show ?case by simp
qed

lemma frame_enter_loop: "forEach (enter_step t) xs w = Some w' \<Longrightarrow> frame t w w'"
  by (rule forEach_inv[where P="frame t w"]) (auto intro: frame_refl frame_trans frame_enter_step)

lemma frame_exit_loop: "forEach (exit_step t) xs w = Some w' \<Longrightarrow> frame t w w'"
  by (rule forEach_inv[where P="frame t w"]) (auto intro: frame_refl frame_trans frame_exit_step)

subsection \<open>The path variables and accumulators of an invocation\<close>

lemma closures_upd_closure [simp]:
  "closures (upd_closure t f w) = (closures w)(t := f (closures w t))"
  by (simp add: upd_closure_def)

lemma locals_builders:
  "closures (snd (stateReactivatedSurrogatePhase1 st w)) = closures w"
  "closures (snd (stateReactivatedSurrogatePhase2 t st w)) t =
     (closures w t)\<lparr>restoreFunctions := restoreFunctions (closures (snd (stateReactivatedSurrogatePhase2 t st w)) t)\<rparr>"
  "closures (snd (stateInactivatedSurrogate t st w)) t =
     (closures w t)\<lparr>restoreFunctions := restoreFunctions (closures (snd (stateInactivatedSurrogate t st w)) t)\<rparr>"
  "closures (snd (stateEnteredSurrogate t st tp w)) t =
     (closures w t)\<lparr>restoreFunctions := restoreFunctions (closures (snd (stateEnteredSurrogate t st tp w)) t)\<rparr>"
  "closures (snd (stateUpdateParamsSurrogate t st tp w)) t =
     (closures w t)\<lparr>restoreFunctions := restoreFunctions (closures (snd (stateUpdateParamsSurrogate t st tp w)) t)\<rparr>"
  "closures (snd (stateExitedSurrogate t st w)) t =
     (closures w t)\<lparr>restoreFunctions := restoreFunctions (closures (snd (stateExitedSurrogate t st w)) t)\<rparr>"
  by (simp_all add: builder_defs self_of_def cong: eval_congs)

lemma fst_builders [simp]:
  "fst (stateReactivatedSurrogatePhase1 st w) = nextref w"
  "fst (stateReactivatedSurrogatePhase2 t st w) = nextref w"
  "fst (stateInactivatedSurrogate t st w) = nextref w"
  "fst (stateEnteredSurrogate t st tp w) = st"
  "fst (stateUpdateParamsSurrogate t st tp w) = st"
  "fst (stateExitedSurrogate t st w) = st"
  by (simp_all add: builder_defs self_of_def cong: eval_congs)

lemma nextref_builders [simp]:
  "nextref (snd (stateReactivatedSurrogatePhase1 st w)) = nextref w + 6"
  "nextref (snd (stateReactivatedSurrogatePhase2 t st w)) = nextref w + 5"
  "nextref (snd (stateInactivatedSurrogate t st w)) = nextref w + 5"
  "nextref (snd (stateEnteredSurrogate t st tp w)) = nextref w"
  "nextref (snd (stateUpdateParamsSurrogate t st tp w)) = nextref w"
  "nextref (snd (stateExitedSurrogate t st w)) = nextref w"
  "nextref (upd_closure t f w) = nextref w"
  by (simp_all add: builder_defs self_of_def cong: eval_congs)

lemma local_fields:
  assumes "c' = c\<lparr>restoreFunctions := fs\<rparr>"
  shows "surrogateToPath c' = surrogateToPath c" "surrogateFromPath c' = surrogateFromPath c"
    "reactivated c' = reactivated c" "exited c' = exited c"
    "terminalReactivatedState c' = terminalReactivatedState c"
  using assms by simp_all

lemmas locals_after =
  local_fields[OF locals_builders(2)] local_fields[OF locals_builders(3)]
  local_fields[OF locals_builders(4)] local_fields[OF locals_builders(5)]
  local_fields[OF locals_builders(6)]

lemma locals_reactivate:
  "surrogateToPath (closures (reactivate_branch t st w) t) = surrogateToPath (closures w t) @ [nextref w]"
  "surrogateFromPath (closures (reactivate_branch t st w) t) = surrogateFromPath (closures w t) @ [nextref w]"
  "reactivated (closures (reactivate_branch t st w) t) = reactivated (closures w t) @ [nextref w + 6]"
  "exited (closures (reactivate_branch t st w) t) = exited (closures w t)"
  "terminalReactivatedState (closures (reactivate_branch t st w) t) = Some st"
  by (simp_all add: reactivate_branch_def Let_def split_def locals_after locals_builders(1))

lemma locals_updateStateParams:
  "surrogateToPath (closures (updateStateParams_branch t st w) t) = surrogateToPath (closures w t) @ [st]"
  "surrogateFromPath (closures (updateStateParams_branch t st w) t) = surrogateFromPath (closures w t)"
  "reactivated (closures (updateStateParams_branch t st w) t) = reactivated (closures w t)"
  "exited (closures (updateStateParams_branch t st w) t) = exited (closures w t)"
  "terminalReactivatedState (closures (updateStateParams_branch t st w) t) = Some st"
  by (simp_all add: updateStateParams_branch_def Let_def split_def locals_after)

lemma locals_enter:
  "surrogateToPath (closures (enter_branch t st w) t) = surrogateToPath (closures w t) @ [st]"
  "surrogateFromPath (closures (enter_branch t st w) t) = surrogateFromPath (closures w t)"
  "reactivated (closures (enter_branch t st w) t) = reactivated (closures w t)"
  "exited (closures (enter_branch t st w) t) = exited (closures w t)"
  "terminalReactivatedState (closures (enter_branch t st w) t) = terminalReactivatedState (closures w t)"
  by (simp_all add: enter_branch_def Let_def split_def locals_after)

lemma locals_inactivate:
  "surrogateToPath (closures (inactivate_branch t st w) t) = surrogateToPath (closures w t)"
  "surrogateFromPath (closures (inactivate_branch t st w) t) = surrogateFromPath (closures w t) @ [nextref w]"
  "reactivated (closures (inactivate_branch t st w) t) = reactivated (closures w t)"
  "exited (closures (inactivate_branch t st w) t) = exited (closures w t) @ [st]"
  "terminalReactivatedState (closures (inactivate_branch t st w) t) = terminalReactivatedState (closures w t)"
  by (simp_all add: inactivate_branch_def Let_def split_def locals_after)

lemma locals_exit:
  "surrogateToPath (closures (exit_branch t st w) t) = surrogateToPath (closures w t)"
  "surrogateFromPath (closures (exit_branch t st w) t) = surrogateFromPath (closures w t) @ [st]"
  "reactivated (closures (exit_branch t st w) t) = reactivated (closures w t)"
  "exited (closures (exit_branch t st w) t) = exited (closures w t) @ [st]"
  "terminalReactivatedState (closures (exit_branch t st w) t) = terminalReactivatedState (closures w t)"
  by (simp_all add: exit_branch_def Let_def split_def locals_after)

lemmas locals_branches = locals_reactivate locals_updateStateParams locals_enter
  locals_inactivate locals_exit

subsection \<open>The exited accumulator\<close>

lemma exited_enter_step:
  "enter_step t iv w = Some w' \<Longrightarrow> exited (closures w' t) = exited (closures w t)"
  by (auto simp: enter_step_def Let_def locals_branches split: option.splits if_splits)

lemma exited_enter_loop:
  "forEach (enter_step t) xs w = Some w' \<Longrightarrow> exited (closures w' t) = exited (closures w t)"
  by (rule forEach_inv[where P="\<lambda>v. exited (closures v t) = exited (closures w t)"])
     (auto dest: exited_enter_step)

lemma exited_exit_loop:
  assumes loop: "forEach (exit_step t) (enumerate 0 xs) w = Some w'"
      and fs: "fromState (closures w t) < nextref w"
      and p: "path (nodes w (fromState (closures w t))) = Some p"
  shows "exited (closures w' t) = exited (closures w t) @ leaving xs (arrays w p) (length xs)"
    and "\<forall>i<length xs. xs ! i = Some ''inactivate'' \<or> xs ! i = Some ''exit'' \<longrightarrow> i < length (arrays w p)"
proof -
  let ?P = "\<lambda>i v. frame t w v \<and>
     exited (closures v t) = exited (closures w t) @ leaving xs (arrays w p) i \<and>
     (\<forall>j<i. xs ! j = Some ''inactivate'' \<or> xs ! j = Some ''exit'' \<longrightarrow> j < length (arrays w p))"
  have "?P (0 + length xs) w'"
  proof (rule forEach_enumerate_inv[where P="?P", OF loop])
    show "?P 0 w" by (simp add: frame_refl leaving_def)
  next
    fix i v v'
    assume i: "0 \<le> i" "i < 0 + length xs" and inv: "?P i v"
      and st: "exit_step t (i, xs ! (i - 0)) v = Some v'"
    from inv have fr: "frame t w v" by simp
    have pv: "path (nodes v (fromState (closures v t))) = Some p" "arrays v = arrays w"
      using fr fs p by (auto simp: frame_def)
    have fr': "frame t w v'" using fr frame_exit_step[OF st] by (rule frame_trans)
    have ex: "exited (closures v' t) = exited (closures v t) @
        (if xs ! i = Some ''inactivate'' \<or> xs ! i = Some ''exit'' then [arrays w p ! i] else [])"
      and rng: "xs ! i = Some ''inactivate'' \<or> xs ! i = Some ''exit'' \<longrightarrow> i < length (arrays w p)"
      using st pv
      by (auto simp: exit_step_def Let_def nth_opt_def locals_branches split: option.splits if_splits)
    have "leaving xs (arrays w p) (Suc i) = leaving xs (arrays w p) i @
        (if xs ! i = Some ''inactivate'' \<or> xs ! i = Some ''exit'' then [arrays w p ! i] else [])"
      by (simp add: leaving_def)
    then show "?P (Suc i) v'"
      using inv ex rng fr' by (auto simp: less_Suc_eq)
  qed
  then show "exited (closures w' t) = exited (closures w t) @ leaving xs (arrays w p) (length xs)"
    and "\<forall>i<length xs. xs ! i = Some ''inactivate'' \<or> xs ! i = Some ''exit'' \<longrightarrow> i < length (arrays w p)"
    by simp_all
qed

subsection \<open>The steps before the loops\<close>

lemma prep_refl: "prep t w w"
  by (simp add: prep_def)

lemma prep_trans: "prep t w1 w2 \<Longrightarrow> prep t w2 w3 \<Longrightarrow> prep t w1 w3"
  unfolding prep_def by (intro conjI allI impI; simp)

lemma prep_save_paths: "save_paths rq t ts w = Some w' \<Longrightarrow> prep t w w'"
  by (auto simp: save_paths_def Let_def prep_def upd_closure_def
      split: reload_opt.splits option.splits)

lemma saved_save_paths:
  "save_paths rq t ts w = Some w' \<Longrightarrow>
     savedToStatePath (closures w' t) = path (nodes w ts) \<and>
     savedFromStatePath (closures w' t) = path (nodes w (fromState (closures w t))) \<and>
     restoreFunctions (closures w' t) = restoreFunctions (closures w t)"
  by (auto simp: save_paths_def Let_def upd_closure_def split: reload_opt.splits option.splits)

lemma prep_register_pending: "prep t w (register_pending t w)"
  by (simp add: register_pending_def prep_def)

lemma prep_reload_params: "prep t w (reload_params rq t w)"
  by (auto simp: reload_params_def Let_def prep_def upd_closure_def addRestoreFunction_def
      split: option.splits)

lemma prep_debug_transition: "prep t w (debug_transition t w)"
  by (simp add: debug_transition_def prep_def)

lemma prep_slice_paths: "slice_paths rq t ts w = Some w' \<Longrightarrow> prep t w w'"
  by (auto simp: slice_paths_def prep_def upd_closure_def split: option.splits)

lemma prep_clear_inactive_locals: "prep t w (clear_inactive_locals w)"
  by (simp add: clear_inactive_locals_def prep_def split: option.splits)

lemma prep_load_inactive_locals: "load_inactive_locals i w = Some w' \<Longrightarrow> prep t w w'"
  by (auto simp: load_inactive_locals_def prep_def split: option.splits if_splits)

lemma prep_load_loop: "forEach load_inactive_locals xs w = Some w' \<Longrightarrow> prep t w w'"
  by (rule forEach_inv[where P="prep t w"]) (auto intro: prep_refl prep_trans prep_load_inactive_locals)

lemma saved_kept_steps:
  "saved_kept t w (register_pending t w)"
  "saved_kept t w (reload_params rq t w)"
  "saved_kept t w (debug_transition t w)"
  "slice_paths rq t ts w = Some w' \<Longrightarrow> saved_kept t w w'"
  "saved_kept t w (clear_inactive_locals w)"
  "load_inactive_locals i w = Some w' \<Longrightarrow> saved_kept t w w'"
  by (auto simp: saved_kept_def register_pending_def reload_params_def debug_transition_def
      slice_paths_def clear_inactive_locals_def load_inactive_locals_def Let_def upd_closure_def
      addRestoreFunction_def split: option.splits if_splits)

lemma saved_kept_trans: "saved_kept t w1 w2 \<Longrightarrow> saved_kept t w2 w3 \<Longrightarrow> saved_kept t w1 w3"
  by (simp add: saved_kept_def)

lemma saved_kept_load_loop: "forEach load_inactive_locals xs w = Some w' \<Longrightarrow> saved_kept t w w'"
  by (rule forEach_inv[where P="saved_kept t w"])
     (auto simp: saved_kept_def dest: saved_kept_steps(6)[of _ _ _ t])

subsection \<open>What an invocation starts with\<close>

lemma start_closure:
  assumes "start rq w = Some (t, w0)"
  shows "toState (closures w0 t) = target rq" "fromState (closures w0 t) = current rq"
    "restoreFunctions (closures w0 t) = []" "restored (closures w0 t) = False"
    "exited (closures w0 t) = []" "reactivated (closures w0 t) = []"
    "terminalReactivatedState (closures w0 t) = None"
    "savedToStatePath (closures w0 t) = None" "savedFromStatePath (closures w0 t) = None"
    "DEBUG (closures w0 t) = debugMode rq"
  using assms
  by (auto simp: start_def begin_transition_def Let_def split: Option.bind_splits)

subsection \<open>The orphans\<close>

lemma collect_orphans_filter:
  "collect_orphans w pre xs = Some found \<Longrightarrow>
     found = filter (\<lambda>e. starts_with (state_toString w e) pre) xs \<and>
     (\<forall>e\<in>set xs. name (selfs w (self_of w e)) \<noteq> None)"
proof (induction xs arbitrary: found)
  case Nil
  then show ?case by simp
next
  case (Cons x xs)
  from Cons.prems obtain nm os where nm: "name (selfs w (self_of w x)) = Some nm"
    and os: "collect_orphans w pre xs = Some os"
    and found: "found = (if starts_with nm pre then x # os else os)"
    by (auto split: option.splits)
  have "state_toString w x = nm" using nm by (simp add: state_toString_def name_text_def)
  then show ?case using Cons.IH[OF os] nm found by auto
qed

lemma fst_map_exited [simp]: "fst (map_exited t xs w) = xs"
  by (induction xs arbitrary: w) (simp_all add: split_def Let_def)

lemma frame_map_exited: "frame t w (snd (map_exited t xs w))"
proof (induction xs arbitrary: w)
  case Nil
  show ?case by (simp add: frame_refl)
next
  case (Cons x xs)
  have "frame t w (snd (stateExitedSurrogate t x w))" by (rule frame_builders)
  then show ?case using Cons[of "snd (stateExitedSurrogate t x w)"]
    by (auto simp: split_def Let_def intro: frame_trans)
qed

lemma ledger_only_trans:
  assumes "c' = c\<lparr>restoreFunctions := fs\<rparr>" and "c'' = c'\<lparr>restoreFunctions := gs\<rparr>"
  shows "c'' = c\<lparr>restoreFunctions := restoreFunctions c''\<rparr>"
  using assms by simp

lemma locals_map_exited:
  "closures (snd (map_exited t xs w)) t =
     (closures w t)\<lparr>restoreFunctions := restoreFunctions (closures (snd (map_exited t xs w)) t)\<rparr>"
proof (induction xs arbitrary: w)
  case Nil
  show ?case by simp
next
  case (Cons x xs)
  have "closures (snd (map_exited t (x # xs) w)) t =
          closures (snd (map_exited t xs (snd (stateExitedSurrogate t x w)))) t"
    by (simp add: split_def Let_def)
  then show ?case
    using ledger_only_trans[OF locals_builders(6)[of t x w] Cons[of "snd (stateExitedSurrogate t x w)"]]
    by simp
qed

lemma insort_key_agree:
  assumes "f x = g x" and "\<forall>y\<in>set xs. f y = g y"
  shows "insort_key f x xs = insort_key g x xs"
  using assms(2)
proof (induction xs)
  case Nil
  show ?case by simp
next
  case (Cons a xs)
  then have IH: "insort_key f x xs = insort_key g x xs" and a: "f a = g a" by simp_all
  show ?case unfolding insort_key.simps assms(1) a IH by (rule refl)
qed

lemma sort_key_agree:
  assumes "\<forall>y\<in>set xs. f y = g y"
  shows "sort_key f xs = sort_key g xs"
  using assms
proof (induction xs)
  case Nil
  show ?case by simp
next
  case (Cons x xs)
  then have IH: "sort_key f xs = sort_key g xs" and x: "f x = g x"
    and r: "\<forall>y\<in>set (sort_key g xs). f y = g y" by simp_all
  have "sort_key f (x # xs) = insort_key f x (sort_key g xs)" using IH by simp
  also have "\<dots> = insort_key g x (sort_key g xs)" by (rule insort_key_agree[OF x r])
  finally show ?case by simp
qed

lemma exit_orphans_Some:
  assumes "exit_orphans rq t ts w = Some w'"
  shows "w' = (if terminalReactivatedState (closures w t) = Some ts
     then upd_closure t (\<lambda>c. c\<lparr>surrogateFromPath := surrogateFromPath c @ orphans_of w ts (inactiveStates rq),
                                  exited := exited c @ orphans_of w ts (inactiveStates rq)\<rparr>)
              (snd (map_exited t (orphans_of w ts (inactiveStates rq)) w))
     else w)"
proof (cases "terminalReactivatedState (closures w t) = Some ts")
  case False
  then show ?thesis using assms by (simp add: exit_orphans_def)
next
  case True
  let ?pre = "name_text (name (selfs w (self_of w ts))) @ ''.''"
  from assms True obtain found where c: "collect_orphans w ?pre (inactiveStates rq) = Some found"
    by (cases "collect_orphans w ?pre (inactiveStates rq)") (simp_all add: exit_orphans_def)
  have o: "rev (sort_key (state_toString w) found) = orphans_of w ts (inactiveStates rq)"
    using collect_orphans_filter[OF c] by (simp add: orphans_of_def state_toString_def)
  have "exit_orphans rq t ts w =
      Some (upd_closure t (\<lambda>c. c\<lparr>surrogateFromPath := surrogateFromPath c @ orphans_of w ts (inactiveStates rq),
                                  exited := exited c @ orphans_of w ts (inactiveStates rq)\<rparr>)
              (snd (map_exited t (orphans_of w ts (inactiveStates rq)) w)))"
    unfolding exit_orphans_def using True c by (simp add: Let_def split_def o)
  then show ?thesis using assms True by simp
qed

lemma exit_orphans_facts:
  assumes "exit_orphans rq t ts w = Some w'"
  shows "frame t w w'"
    and "surrogateToPath (closures w' t) = surrogateToPath (closures w t)"
    and "reactivated (closures w' t) = reactivated (closures w t)"
    and "terminalReactivatedState (closures w' t) = terminalReactivatedState (closures w t)"
    and "exited (closures w' t) = exited (closures w t) @
           (if terminalReactivatedState (closures w t) = Some ts
            then orphans_of w ts (inactiveStates rq) else [])"
    and "surrogateFromPath (closures w' t) = surrogateFromPath (closures w t) @
           (if terminalReactivatedState (closures w t) = Some ts
            then orphans_of w ts (inactiveStates rq) else [])"
proof -
  note loc = local_fields[OF locals_map_exited]
  note eq = exit_orphans_Some[OF assms]
  show "frame t w w'"
  proof (cases "terminalReactivatedState (closures w t) = Some ts")
    case True
    have "frame t w (upd_closure t (\<lambda>c. c\<lparr>surrogateFromPath := surrogateFromPath c @ orphans_of w ts (inactiveStates rq),
                                  exited := exited c @ orphans_of w ts (inactiveStates rq)\<rparr>)
              (snd (map_exited t (orphans_of w ts (inactiveStates rq)) w)))"
      by (intro frame_upd_local frame_map_exited) simp
    then show ?thesis using eq True by simp
  next
    case False
    then show ?thesis using eq by (simp add: frame_refl)
  qed
  show "surrogateToPath (closures w' t) = surrogateToPath (closures w t)"
    by (subst eq) (simp add: loc)
  show "reactivated (closures w' t) = reactivated (closures w t)"
    by (subst eq) (simp add: loc)
  show "terminalReactivatedState (closures w' t) = terminalReactivatedState (closures w t)"
    by (subst eq) (simp add: loc)
  show "exited (closures w' t) = exited (closures w t) @
           (if terminalReactivatedState (closures w t) = Some ts
            then orphans_of w ts (inactiveStates rq) else [])"
    by (subst eq) (simp add: loc)
  show "surrogateFromPath (closures w' t) = surrogateFromPath (closures w t) @
           (if terminalReactivatedState (closures w t) = Some ts
            then orphans_of w ts (inactiveStates rq) else [])"
    by (subst eq) (simp add: loc)
qed

lemma orphans_of_agree:
  assumes "\<forall>e\<in>set (ts # inactive). state_toString w e = state_toString w0 e"
  shows "orphans_of w ts inactive = orphans_of w0 ts inactive"
proof -
  have f: "filter (\<lambda>e. starts_with (state_toString w e) (state_toString w ts @ ''.'')) inactive =
           filter (\<lambda>e. starts_with (state_toString w0 e) (state_toString w0 ts @ ''.'')) inactive"
    using assms by (intro filter_cong) auto
  have "\<forall>e\<in>set (filter (\<lambda>e. starts_with (state_toString w0 e) (state_toString w0 ts @ ''.'')) inactive).
          state_toString w e = state_toString w0 e"
    using assms by auto
  then show ?thesis
    unfolding orphans_of_def f by (simp add: sort_key_agree)
qed

lemma substitute_SomeD:
  assumes "substitute rq t ts w0 = Some w'"
  obtains w1 w3 w4 w5 w6 w7 where
    "save_paths rq t ts w0 = Some w1"
    "slice_paths rq t ts (debug_transition t (reload_params rq t (register_pending t w1))) = Some w3"
    "forEach load_inactive_locals (inactives (stickyTransitions rq)) (clear_inactive_locals w3) = Some w4"
    "forEach (enter_step t) (enumerate 0 (enter (stickyTransitions rq))) w4 = Some w5"
    "forEach (exit_step t) (enumerate 0 (exit (stickyTransitions rq))) w5 = Some w6"
    "exit_orphans rq t ts (push_reactivated t w6) = Some w7"
    "w' = debug_paths t (install_paths t ts w7)"
  using assms unfolding substitute_def by (auto split: Option.bind_splits)

lemma transitionTo_SomeD:
  assumes "transitionTo rq w = Some (t, w')" and "target rq = Some ts"
  obtains w0 where "start rq w = Some (t, w0)" "substitute rq t ts w0 = Some w'"
  using assms unfolding transitionTo_def by (auto split: Option.bind_splits)

lemma prep_before_loops:
  assumes "save_paths rq t ts w0 = Some w1"
    and "slice_paths rq t ts (debug_transition t (reload_params rq t (register_pending t w1))) = Some w3"
    and "forEach load_inactive_locals is (clear_inactive_locals w3) = Some w4"
  shows "prep t w0 w4"
    and "savedToStatePath (closures w4 t) = path (nodes w0 ts)"
    and "savedFromStatePath (closures w4 t) = path (nodes w0 (fromState (closures w0 t)))"
proof -
  let ?a = "register_pending t w1" let ?b = "reload_params rq t ?a" let ?c = "debug_transition t ?b"
  let ?d = "clear_inactive_locals w3"
  have p1: "prep t w0 w1" by (rule prep_save_paths[OF assms(1)])
  have p2: "prep t w0 ?a" by (rule prep_trans[OF p1 prep_register_pending])
  have p3: "prep t w0 ?b" by (rule prep_trans[OF p2 prep_reload_params])
  have p4: "prep t w0 ?c" by (rule prep_trans[OF p3 prep_debug_transition])
  have p5: "prep t w0 w3" by (rule prep_trans[OF p4 prep_slice_paths[OF assms(2)]])
  have p6: "prep t w0 ?d" by (rule prep_trans[OF p5 prep_clear_inactive_locals])
  show "prep t w0 w4" by (rule prep_trans[OF p6 prep_load_loop[OF assms(3)]])
  have k2: "saved_kept t w1 ?a" by (rule saved_kept_steps)
  have k3: "saved_kept t w1 ?b" by (rule saved_kept_trans[OF k2 saved_kept_steps(2)])
  have k4: "saved_kept t w1 ?c" by (rule saved_kept_trans[OF k3 saved_kept_steps(3)])
  have k5: "saved_kept t w1 w3" by (rule saved_kept_trans[OF k4 saved_kept_steps(4)[OF assms(2)]])
  have k6: "saved_kept t w1 ?d" by (rule saved_kept_trans[OF k5 saved_kept_steps(5)])
  have "saved_kept t w1 w4" by (rule saved_kept_trans[OF k6 saved_kept_load_loop[OF assms(3)]])
  then show "savedToStatePath (closures w4 t) = path (nodes w0 ts)"
    and "savedFromStatePath (closures w4 t) = path (nodes w0 (fromState (closures w0 t)))"
    using saved_save_paths[OF assms(1)] by (simp_all add: saved_kept_def)
qed

lemma frame_push_reactivated: "frame t w (push_reactivated t w)"
  unfolding push_reactivated_def by (intro frame_upd_local frame_refl) simp

lemma closures_install_debug [simp]:
  "closures (debug_paths t (install_paths t ts w)) = closures w"
  by (simp add: debug_paths_def install_paths_def Let_def upd_node_def)

text \<open>The names that old states print with do not change while the paths are built.\<close>
lemma state_toString_kept:
  assumes "prep t w0 w4" and "frame t w4 v" and "e < nextref w0" and "self_of w0 e < nextref w0"
  shows "state_toString v e = state_toString w0 e"
  using assms by (simp add: prep_def frame_def state_toString_def self_of_def)

subsection \<open>The exited accumulator of a whole substitution\<close>

lemma leaving_member:
  "i < n \<Longrightarrow> xs ! i = Some ''inactivate'' \<or> xs ! i = Some ''exit'' \<Longrightarrow> arr ! i \<in> set (leaving xs arr n)"
  by (auto simp: leaving_def)

text \<open>
  C10. When the substitution of a request with a resolved target has run, the \<open>exited\<close>
  accumulator of the invocation holds, in path order, every from-path state whose
  classification is \<open>"inactivate"\<close> or \<open>"exit"\<close> (the inactivated ones included), followed by the
  orphaned inactive descendants when the target is the terminal reactivated state. \<open>w0\<close>
  is the world in which the invocation starts its own work.
\<close>
theorem exited_accumulator:
  assumes st: "start rq w = Some (t, w0)"
      and tg: "target rq = Some ts"
      and tr: "transitionTo rq w = Some (t, w')"
      and fs: "current rq < nextref w0"
      and pf: "path (nodes w0 (current rq)) = Some pf"
      and al: "allocated w0 (ts # inactiveStates rq)"
  shows "exited (closures w' t) =
           leaving (exit (stickyTransitions rq)) (arrays w0 pf) (length (exit (stickyTransitions rq))) @
           (if terminalReactivatedState (closures w' t) = Some ts
            then orphans_of w0 ts (inactiveStates rq) else []) \<and>
         (\<forall>i<length (exit (stickyTransitions rq)).
            exit (stickyTransitions rq) ! i = Some ''inactivate'' \<or>
            exit (stickyTransitions rq) ! i = Some ''exit'' \<longrightarrow>
            i < length (arrays w0 pf) \<and> arrays w0 pf ! i \<in> set (exited (closures w' t)))"
proof -
  from tr tg st have sub: "substitute rq t ts w0 = Some w'"
    by (auto elim!: transitionTo_SomeD)
  from sub obtain w1 w3 w4 w5 w6 w7 where
    s1: "save_paths rq t ts w0 = Some w1" and
    s3: "slice_paths rq t ts (debug_transition t (reload_params rq t (register_pending t w1))) = Some w3" and
    s4: "forEach load_inactive_locals (inactives (stickyTransitions rq)) (clear_inactive_locals w3) = Some w4" and
    s5: "forEach (enter_step t) (enumerate 0 (enter (stickyTransitions rq))) w4 = Some w5" and
    s6: "forEach (exit_step t) (enumerate 0 (exit (stickyTransitions rq))) w5 = Some w6" and
    s7: "exit_orphans rq t ts (push_reactivated t w6) = Some w7" and
    w': "w' = debug_paths t (install_paths t ts w7)"
    by (rule substitute_SomeD)
  let ?xs = "exit (stickyTransitions rq)"
  have p4: "prep t w0 w4" by (rule prep_before_loops[OF s1 s3 s4])
  have f5: "frame t w4 w5" by (rule frame_enter_loop[OF s5])
  have f6: "frame t w5 w6" by (rule frame_exit_loop[OF s6])
  have f46: "frame t w4 w6" by (rule frame_trans[OF f5 f6])
  have f4p: "frame t w4 (push_reactivated t w6)" by (rule frame_trans[OF f46 frame_push_reactivated])
  have from5: "fromState (closures w5 t) = current rq"
    using p4 f5 start_closure(2)[OF st] by (simp add: prep_def frame_def)
  have path5: "path (nodes w5 (fromState (closures w5 t))) = Some pf" and arr5: "arrays w5 = arrays w0"
    and n5: "fromState (closures w5 t) < nextref w5"
    using p4 f5 fs pf from5 by (auto simp: prep_def frame_def)
  have e5: "exited (closures w5 t) = []"
    using exited_enter_loop[OF s5] p4 start_closure(5)[OF st] by (simp add: prep_def)
  have e6: "exited (closures w6 t) = leaving ?xs (arrays w0 pf) (length ?xs)"
    using exited_exit_loop(1)[OF s6 n5 path5] e5 arr5 by simp
  have rng: "\<forall>i<length ?xs. ?xs ! i = Some ''inactivate'' \<or> ?xs ! i = Some ''exit'' \<longrightarrow>
      i < length (arrays w0 pf)"
    using exited_exit_loop(2)[OF s6 n5 path5] arr5 by simp
  have names: "\<forall>e\<in>set (ts # inactiveStates rq).
      state_toString (push_reactivated t w6) e = state_toString w0 e"
    using al by (auto simp: allocated_def list_all_iff intro!: state_toString_kept[OF p4 f4p])
  have o: "orphans_of (push_reactivated t w6) ts (inactiveStates rq) = orphans_of w0 ts (inactiveStates rq)"
    by (rule orphans_of_agree[OF names])
  have "exited (closures (push_reactivated t w6) t) = exited (closures w6 t)"
    by (simp add: push_reactivated_def)
  then have eq: "exited (closures w' t) = leaving ?xs (arrays w0 pf) (length ?xs) @
           (if terminalReactivatedState (closures w' t) = Some ts
            then orphans_of w0 ts (inactiveStates rq) else [])"
    using exit_orphans_facts(4,5)[OF s7] e6 o w' by simp
  have "\<forall>i<length ?xs. ?xs ! i = Some ''inactivate'' \<or> ?xs ! i = Some ''exit'' \<longrightarrow>
      arrays w0 pf ! i \<in> set (exited (closures w' t))"
    unfolding eq using leaving_member[of _ "length ?xs" ?xs "arrays w0 pf"] by auto
  then show ?thesis using eq rng by blast
qed

theorem exited_accumulator_witness:
  "start back_to_A tree \<noteq> None \<and>
   exited (closures (snd (the (transitionTo back_to_A tree))) 0) = [5, 4, 3]"
proof -
  obtain w0 where s: "start back_to_A tree = Some (0, w0)"
    by (simp add: model_defs example_defs Let_def cong: eval_congs)
  obtain w' where t: "transitionTo back_to_A tree = Some (0, w')"
    by (simp add: model_defs example_defs Let_def cong: eval_congs)
  have w0: "nextref w0 = 100" "path (nodes w0 5) = Some 35" "arrays w0 35 = [1, 5]"
    "allocated w0 [2, 2, 3, 4]"
    "orphans_of w0 2 [2, 3, 4] = [4, 3]"
    using s by (auto simp: model_defs example_defs allocated_def orphans_of_def Let_def cong: eval_congs)
  have terminal: "terminalReactivatedState (closures w' 0) = Some 2"
    using t by (auto simp: model_defs example_defs Let_def cong: eval_congs)
  have rq: "target back_to_A = Some 2" "current back_to_A = 5" "inactiveStates back_to_A = [2, 3, 4]"
    "exit (stickyTransitions back_to_A) = [None, Some ''inactivate'']"
    by (simp_all add: example_defs)
  have "exited (closures w' 0) = [5, 4, 3]"
    using exited_accumulator[OF s rq(1) t, of 35] w0 terminal rq
    by (simp add: leaving_def)
  then show ?thesis using s t by simp
qed

subsection \<open>The locals of the inactive pseudo state\<close>

subsection \<open>The locals of the inactive pseudo state\<close>












lemma lobjs_addRestoreFunction [simp]: "lobjs (addRestoreFunction t u w) = lobjs w"
  by (simp add: addRestoreFunction_def upd_closure_def)

lemma lobjs_reload_params [simp]: "lobjs (reload_params rq t w) = lobjs w"
  by (simp add: reload_params_def upd_closure_def Let_def split: option.splits)

lemma lobjs_register_debug [simp]:
  "lobjs (register_pending t w) = lobjs w" "lobjs (debug_transition t w) = lobjs w"
  by (simp_all add: register_pending_def debug_transition_def)




lemma lobjs_install_debug [simp]: "lobjs (debug_paths t (install_paths t ts w)) = lobjs w"
  by (simp add: debug_paths_def install_paths_def Let_def upd_node_def)







end
